theory Spec2Isabelle
  imports
    Complex_Main
    "HOL-Library.List_Lexorder"
    "HOL-Library.Char_ord"
    "HOL-Library.Multiset"
begin

section \<open>Helpers of the WebRTC layer: packages/common/src/webrtc/helpers.ts\<close>

text \<open>
  The development embeds three functions of \<^verbatim>\<open>helpers.ts\<close>: \<^verbatim>\<open>mungeLayoutList\<close> with its
  reducer and comparator, \<^verbatim>\<open>mutateCanvasInfoData\<close> and \<^verbatim>\<open>getMediaConstraints\<close>.

  JavaScript strings are sequences of UTF-16 code units. Here a string is a \<^typ>\<open>string\<close>,
  a list of \<^typ>\<open>char\<close>, so the strings covered are those whose code units are below 256
  (ISO-8859-1). The order on \<^typ>\<open>string\<close> is the lexicographic order on code units, a
  proper prefix being smaller: what \<^verbatim>\<open><\<close> and \<^verbatim>\<open>>\<close> compute on two JavaScript strings.
\<close>

subsection \<open>The layout catalog: data\<close>

text \<open>
  \<^verbatim>\<open>IVertoLayout\<close>, as \<^verbatim>\<open>_layoutReducer\<close> and \<^verbatim>\<open>mungeLayoutList\<close> read it. An optional
  property that is \<^verbatim>\<open>undefined\<close> is \<open>None\<close>.
\<close>

record IVertoLayout =
  type :: string
  name :: string
  displayName :: "string option"
  resIDS :: "string list option"
  groupLayouts :: "string list option"

text \<open>\<^verbatim>\<open>ILayout\<close>, the object literal built in \<^verbatim>\<open>_layoutReducer\<close>.\<close>

record ILayout =
  id :: string
  label :: string
  type :: string
  reservationIds :: "string list"
  belongsToAGroup :: bool

subsection \<open>String primitives\<close>

text \<open>
  \<^verbatim>\<open>String.prototype.toLowerCase\<close> on code units below 256: the letters A to Z and the
  letters U+00C0 to U+00DE, the multiplication sign U+00D7 apart, move up by 32.
\<close>

definition toLowerCase_char :: "char \<Rightarrow> char" where
  "toLowerCase_char c =
     (let n = (of_char c :: nat)
      in if (65 \<le> n \<and> n \<le> 90) \<or> (192 \<le> n \<and> n \<le> 222 \<and> n \<noteq> 215)
         then char_of (n + 32) else c)"

definition toLowerCase :: "string \<Rightarrow> string" where
  "toLowerCase s = map toLowerCase_char s"

text \<open>\<^verbatim>\<open>s.replace(/[-_]/g, ' ')\<close>: every hyphen and every underscore becomes a space.\<close>

definition replace_separators :: "string \<Rightarrow> string" where
  "replace_separators s =
     map (\<lambda>c. if c = CHR ''-'' \<or> c = CHR ''_'' then CHR '' '' else c) s"

subsection \<open>The reducer and the comparator\<close>

text \<open>
  \<^verbatim>\<open>_layoutReducer\<close>. In \<^verbatim>\<open>displayName || name.replace(...)\<close> the left operand is falsy
  when it is \<^verbatim>\<open>undefined\<close> and when it is the empty string. The default \<^verbatim>\<open>resIDS = []\<close>
  of the destructuring applies to \<^verbatim>\<open>undefined\<close> only.
\<close>

definition layoutReducer :: "ILayout list \<Rightarrow> IVertoLayout \<Rightarrow> ILayout list" where
  "layoutReducer result layout =
     (let label = (case displayName layout of
                     None \<Rightarrow> replace_separators (name layout)
                   | Some d \<Rightarrow> if d = [] then replace_separators (name layout) else d)
      in result @
         [\<lparr> ILayout.id = name layout,
            label = label,
            type = IVertoLayout.type layout,
            reservationIds = (case resIDS layout of None \<Rightarrow> [] | Some r \<Rightarrow> r),
            belongsToAGroup = False \<rparr>])"

text \<open>\<^verbatim>\<open>_layoutCompare\<close>.\<close>

definition layoutCompare :: "ILayout \<Rightarrow> ILayout \<Rightarrow> int" where
  "layoutCompare prev next =
     (let prevLabel = toLowerCase (label prev);
          nextLabel = toLowerCase (label next)
      in if prevLabel > nextLabel then 1
         else if prevLabel < nextLabel then - 1
         else 0)"

subsection \<open>\<^verbatim>\<open>Array.prototype.sort\<close>\<close>

text \<open>
  ECMAScript (2019 and later) requires \<^verbatim>\<open>sort\<close> to be stable, and to return the elements in
  an order the comparator agrees with whenever the comparator is consistent. For a
  comparator that is a total preorder there is one such result; it is computed here by
  insertion from the right, an element going before the first element it does not
  compare greater than.
\<close>

fun array_insert :: "('a \<Rightarrow> 'a \<Rightarrow> int) \<Rightarrow> 'a \<Rightarrow> 'a list \<Rightarrow> 'a list" where
  "array_insert cmp x [] = [x]"
| "array_insert cmp x (y # ys) =
     (if cmp x y \<le> 0 then x # y # ys else y # array_insert cmp x ys)"

definition array_sort :: "('a \<Rightarrow> 'a \<Rightarrow> int) \<Rightarrow> 'a list \<Rightarrow> 'a list" where
  "array_sort cmp xs = foldr (array_insert cmp) xs []"

subsection \<open>\<^verbatim>\<open>mungeLayoutList\<close>\<close>

text \<open>
  The three local arrays of \<^verbatim>\<open>mungeLayoutList\<close>, each \<^verbatim>\<open>reduce\<close> a left fold from the empty
  array. \<^verbatim>\<open>layout.groupLayouts || []\<close> replaces \<^verbatim>\<open>undefined\<close> only: an array is truthy.
  The \<^verbatim>\<open>forEach\<close> writes \<^verbatim>\<open>belongsToAGroup\<close> into the entries \<^verbatim>\<open>reduce\<close> has just built.
\<close>

definition layoutsPartOfGroup :: "IVertoLayout list \<Rightarrow> string list" where
  "layoutsPartOfGroup layoutGroups =
     foldl (\<lambda>cumulative layout.
              cumulative @ (case groupLayouts layout of None \<Rightarrow> [] | Some g \<Rightarrow> g))
           [] layoutGroups"

definition normalList :: "IVertoLayout list \<Rightarrow> IVertoLayout list \<Rightarrow> ILayout list" where
  "normalList layouts layoutGroups =
     map (\<lambda>layout. layout\<lparr> belongsToAGroup :=
                       ILayout.id layout \<in> set (layoutsPartOfGroup layoutGroups) \<rparr>)
         (foldl layoutReducer [] layouts)"

definition groupList :: "IVertoLayout list \<Rightarrow> ILayout list" where
  "groupList layoutGroups = foldl layoutReducer [] layoutGroups"

definition mungeLayoutList :: "IVertoLayout list \<Rightarrow> IVertoLayout list \<Rightarrow> ILayout list" where
  "mungeLayoutList layouts layoutGroups =
     array_sort layoutCompare (groupList layoutGroups @ normalList layouts layoutGroups)"

section \<open>The canvas: \<^verbatim>\<open>mutateCanvasInfoData\<close>\<close>

subsection \<open>Numbers and primitive values\<close>

text \<open>
  A JavaScript number is a binary64 value. The model keeps the five kinds of value the
  arithmetic distinguishes and idealises the finite ones: \<open>Fin r\<close> is the finite number
  of value \<open>r\<close>, an exact rational, \<open>Fin 0\<close> being the positive zero. Rounding to the
  nearest binary64 value, overflow and underflow are not modelled.
\<close>

datatype jsnum = Fin rat | NegZero | PosInf | NegInf | NaN

fun sign_bit :: "jsnum \<Rightarrow> bool" where
  "sign_bit (Fin r) = (r < 0)"
| "sign_bit NegZero = True"
| "sign_bit PosInf = False"
| "sign_bit NegInf = True"
| "sign_bit NaN = False"

fun magnitude :: "jsnum \<Rightarrow> rat" where
  "magnitude (Fin r) = r"
| "magnitude _ = 0"

definition is_zero :: "jsnum \<Rightarrow> bool" where
  "is_zero v = (v = Fin 0 \<or> v = NegZero)"

definition is_infinite :: "jsnum \<Rightarrow> bool" where
  "is_infinite v = (v = PosInf \<or> v = NegInf)"

definition signed_infinity :: "bool \<Rightarrow> jsnum" where
  "signed_infinity negative = (if negative then NegInf else PosInf)"

definition signed_zero :: "bool \<Rightarrow> jsnum" where
  "signed_zero negative = (if negative then NegZero else Fin 0)"

text \<open>
  The operators \<^verbatim>\<open>/\<close> and \<^verbatim>\<open>*\<close> on numbers (ECMAScript, Number::divide and
  Number::multiply): the sign of a result that is not NaN is the exclusive or of the
  signs of the operands.
\<close>

definition js_div :: "jsnum \<Rightarrow> jsnum \<Rightarrow> jsnum" where
  "js_div a b =
     (if a = NaN \<or> b = NaN then NaN
      else if is_infinite a then
        (if is_infinite b then NaN else signed_infinity (sign_bit a \<noteq> sign_bit b))
      else if is_infinite b then signed_zero (sign_bit a \<noteq> sign_bit b)
      else if is_zero b then
        (if is_zero a then NaN else signed_infinity (sign_bit a \<noteq> sign_bit b))
      else if is_zero a then signed_zero (sign_bit a \<noteq> sign_bit b)
      else Fin (magnitude a / magnitude b))"

definition js_mul :: "jsnum \<Rightarrow> jsnum \<Rightarrow> jsnum" where
  "js_mul a b =
     (if a = NaN \<or> b = NaN then NaN
      else if is_infinite a \<or> is_infinite b then
        (if is_zero a \<or> is_zero b then NaN else signed_infinity (sign_bit a \<noteq> sign_bit b))
      else if is_zero a \<or> is_zero b then signed_zero (sign_bit a \<noteq> sign_bit b)
      else Fin (magnitude a * magnitude b))"

text \<open>The primitive values a property of a signalling payload can hold.\<close>

datatype jsval = JUndefined | JNull | JBool bool | JNumber jsnum | JString string

text \<open>
  The operator \<^verbatim>\<open>===\<close>: values of different types are never equal; two numbers are equal
  when neither is NaN and they have the same value, the two zeros being equal.
\<close>

fun strict_equals :: "jsval \<Rightarrow> jsval \<Rightarrow> bool" where
  "strict_equals (JNumber a) (JNumber b) =
     (a \<noteq> NaN \<and> b \<noteq> NaN \<and> (a = b \<or> (is_zero a \<and> is_zero b)))"
| "strict_equals a b = (a = b)"

text \<open>
  \<^verbatim>\<open>String(v)\<close> on a primitive value. The conversion of a number to a string depends on
  its binary64 digits, which the model does not have: it is the parameter \<open>toString\<close>,
  here and in \<^verbatim>\<open>mutateCanvasInfoData\<close>, where a template literal applies it.
\<close>

fun js_String :: "(jsnum \<Rightarrow> string) \<Rightarrow> jsval \<Rightarrow> string" where
  "js_String toString JUndefined = ''undefined''"
| "js_String toString JNull = ''null''"
| "js_String toString (JBool b) = (if b then ''true'' else ''false'')"
| "js_String toString (JNumber n) = toString n"
| "js_String toString (JString s) = s"

subsection \<open>Decimal printing and two-decimal rounding\<close>

text \<open>
  ECMAScript's Number::toString in radix 10, for a positive number given by its
  hundredths: \<open>decimalToString m\<close> prints \<open>m / 100\<close>. With \<open>s\<close> the digits of the number
  without trailing zeros, \<open>k\<close> their count and \<open>n\<close> the position of the decimal point, the
  four cases are those of the standard.
\<close>

fun digits_of :: "nat \<Rightarrow> string" where
  "digits_of n =
     (if n < 10 then [char_of (48 + n)]
      else digits_of (n div 10) @ [char_of (48 + n mod 10)])"

declare digits_of.simps [simp del]

definition strip_zeros :: "string \<Rightarrow> string" where
  "strip_zeros ds = rev (dropWhile (\<lambda>c. c = CHR ''0'') (rev ds))"

definition decimalToString :: "nat \<Rightarrow> string" where
  "decimalToString m =
     (let ds = digits_of m;
          n = int (length ds) - 2;
          s = strip_zeros ds;
          k = int (length s)
      in if k \<le> n \<and> n \<le> 21 then s @ replicate (nat (n - k)) (CHR ''0'')
         else if 0 < n \<and> n \<le> 21 then take (nat n) s @ ''.'' @ drop (nat n) s
         else if - 6 < n \<and> n \<le> 0 then ''0.'' @ replicate (nat (- n)) (CHR ''0'') @ s
         else if k = 1 then s @ ''e+'' @ digits_of (nat (n - 1))
         else take 1 s @ ''.'' @ drop 1 s @ ''e+'' @ digits_of (nat (n - 1)))"

text \<open>
  The conversion of a number to a string, for the numbers of the model that have at most
  two fractional digits: those a rounding to two decimals returns. A finite value is
  printed from the floor of its hundredths, which is the value itself when it has at
  most two fractional digits; no statement below applies \<open>numberToString\<close> to a value
  that has more.
\<close>

definition numberToString :: "jsnum \<Rightarrow> string" where
  "numberToString v =
     (case v of
        NaN \<Rightarrow> ''NaN''
      | PosInf \<Rightarrow> ''Infinity''
      | NegInf \<Rightarrow> ''-Infinity''
      | NegZero \<Rightarrow> ''0''
      | Fin r \<Rightarrow>
          (let h = \<lfloor>r * 100\<rfloor>
           in if h = 0 then ''0''
              else if h < 0 then ''-'' @ decimalToString (nat (- h))
              else decimalToString (nat h)))"

text \<open>
  Modelled from the spec: \<^verbatim>\<open>roundToFixed\<close> of \<^verbatim>\<open>util/helpers\<close>, which \<^verbatim>\<open>helpers.ts\<close> imports and
  which is not among the sources at hand. The specification's rule is to round to two
  decimal places, halves away from zero. It gives no rule for a value that is not
  finite: such a value, and the negative zero, is returned as it is.
\<close>

definition round2 :: "jsnum \<Rightarrow> jsnum" where
  "round2 v =
     (case v of
        Fin r \<Rightarrow> Fin (sgn r * of_int \<lfloor>\<bar>r\<bar> * 100 + 1 / 2\<rfloor> / 100)
      | _ \<Rightarrow> v)"

subsection \<open>The canvas records\<close>

text \<open>
  The interfaces are declared in \<^verbatim>\<open>interfaces.ts\<close>, not among the sources at hand. Each
  record lists the properties \<^verbatim>\<open>mutateCanvasInfoData\<close> names; the properties it does not
  name are the extension of the record, which is how the two \<^verbatim>\<open>...rest\<close> of the function
  carry them over. The numeric properties the function divides are numbers; the others
  are primitive values. In a raw layout the \<^verbatim>\<open>rest\<close> of the destructuring holds \<^verbatim>\<open>x\<close>, \<^verbatim>\<open>y\<close>,
  \<^verbatim>\<open>scale\<close>, \<^verbatim>\<open>hscale\<close> and \<^verbatim>\<open>overlap\<close> with the properties not named. A property of the
  extension is never named like a property the function computes.

  The property \<^verbatim>\<open>canvasLayouts\<close> of a canvas is an array: the list of its layouts where a
  canvas is taken as a value, the address of the array where objects live in a store.
\<close>

record IVertoCanvasLayout =
  memberID :: jsval
  audioPOS :: jsval
  xPOS :: jsval
  yPOS :: jsval
  x :: jsnum
  y :: jsnum
  scale :: jsnum
  hscale :: jsnum
  overlap :: jsval

record ICanvasLayout =
  startX :: string
  startY :: string
  percentageWidth :: string
  percentageHeight :: string
  participantId :: string
  audioPos :: jsval
  xPos :: jsval
  yPos :: jsval
  x :: jsnum
  y :: jsnum
  scale :: jsnum
  hscale :: jsnum
  overlap :: jsval

record 'a IVertoCanvasInfo =
  canvasID :: jsval
  layoutFloorID :: jsval
  scale :: jsnum
  canvasLayouts :: 'a

record 'a ICanvasInfo =
  canvasId :: jsval
  layoutFloorId :: jsval
  scale :: jsnum
  canvasLayouts :: 'a
  layoutOverlap :: bool

subsection \<open>The function on values\<close>

text \<open>
  The object literal that the loop of \<^verbatim>\<open>mutateCanvasInfoData\<close> pushes for one raw layout.
  The helper \<^verbatim>\<open>roundToFixed\<close> is a parameter, as is the conversion \<open>toString\<close> of the
  template literals. A variable whose name is also the name of a record field is
  written with a prime.
\<close>

definition layout_entry ::
  "(jsnum \<Rightarrow> jsnum) \<Rightarrow> (jsnum \<Rightarrow> string) \<Rightarrow> jsnum \<Rightarrow> 'l IVertoCanvasLayout_scheme
   \<Rightarrow> 'l ICanvasLayout_scheme" where
  "layout_entry roundToFixed toString scale' layout =
     \<lparr> startX =
         toString (roundToFixed
           (js_mul (js_div (IVertoCanvasLayout.x layout) scale') (Fin 100))) @ ''%'',
       startY =
         toString (roundToFixed
           (js_mul (js_div (IVertoCanvasLayout.y layout) scale') (Fin 100))) @ ''%'',
       percentageWidth =
         toString (roundToFixed
           (js_mul (js_div (IVertoCanvasLayout.scale layout) scale') (Fin 100))) @ ''%'',
       percentageHeight =
         toString (roundToFixed
           (js_mul (js_div (IVertoCanvasLayout.hscale layout) scale') (Fin 100))) @ ''%'',
       participantId = js_String toString (memberID layout),
       audioPos = audioPOS layout,
       xPos = xPOS layout,
       yPos = yPOS layout,
       x = IVertoCanvasLayout.x layout,
       y = IVertoCanvasLayout.y layout,
       scale = IVertoCanvasLayout.scale layout,
       hscale = IVertoCanvasLayout.hscale layout,
       overlap = IVertoCanvasLayout.overlap layout,
       \<dots> = IVertoCanvasLayout.more layout \<rparr>"

text \<open>
  The \<^verbatim>\<open>for\<close> loop, from index \<open>i\<close> on, with the two variables it updates: the array
  \<^verbatim>\<open>layouts\<close> and the flag \<^verbatim>\<open>layoutOverlap\<close>.
\<close>

function canvasLayouts_loop ::
  "(jsnum \<Rightarrow> jsnum) \<Rightarrow> (jsnum \<Rightarrow> string) \<Rightarrow> jsnum \<Rightarrow> 'l IVertoCanvasLayout_scheme list \<Rightarrow> nat
   \<Rightarrow> 'l ICanvasLayout_scheme list \<times> bool \<Rightarrow> 'l ICanvasLayout_scheme list \<times> bool" where
  "canvasLayouts_loop roundToFixed toString scale' canvasLayouts' i (layouts, layoutOverlap') =
     (if i < length canvasLayouts' then
        (let layout = canvasLayouts' ! i
         in canvasLayouts_loop roundToFixed toString scale' canvasLayouts' (Suc i)
              (layouts @ [layout_entry roundToFixed toString scale' layout],
               layoutOverlap' \<or>
                 strict_equals (IVertoCanvasLayout.overlap layout) (JNumber (Fin 1))))
      else (layouts, layoutOverlap'))"
  by pat_completeness auto
termination
  by (relation "measure (\<lambda>(roundToFixed, toString, scale', canvasLayouts', i, acc).
        length canvasLayouts' - i)") auto

declare canvasLayouts_loop.simps [simp del]

definition mutateCanvasInfoData ::
  "(jsnum \<Rightarrow> jsnum) \<Rightarrow> (jsnum \<Rightarrow> string)
   \<Rightarrow> ('l IVertoCanvasLayout_scheme list, 'c) IVertoCanvasInfo_scheme
   \<Rightarrow> ('l ICanvasLayout_scheme list, 'c) ICanvasInfo_scheme" where
  "mutateCanvasInfoData roundToFixed toString canvasInfo =
     (let (layouts, layoutOverlap) =
            canvasLayouts_loop roundToFixed toString
              (IVertoCanvasInfo.scale canvasInfo)
              (IVertoCanvasInfo.canvasLayouts canvasInfo) 0 ([], False)
      in \<lparr> canvasId = canvasID canvasInfo,
           layoutFloorId = layoutFloorID canvasInfo,
           scale = IVertoCanvasInfo.scale canvasInfo,
           canvasLayouts = layouts,
           layoutOverlap = layoutOverlap,
           \<dots> = IVertoCanvasInfo.more canvasInfo \<rparr>)"

text \<open>
  The outcome of a call. The function has no \<^verbatim>\<open>throw\<close> statement and, on a canvas of its
  declared type, evaluates nothing that throws: the arithmetic, the conversions to
  string and \<^verbatim>\<open>push\<close> are total. The errors are the two kinds the specification names.
\<close>

datatype error = InvalidArgument | DeviceResolutionFailure

definition mutateCanvasInfoData_outcome ::
  "(jsnum \<Rightarrow> jsnum) \<Rightarrow> (jsnum \<Rightarrow> string)
   \<Rightarrow> ('l IVertoCanvasLayout_scheme list, 'c) IVertoCanvasInfo_scheme
   \<Rightarrow> error + ('l ICanvasLayout_scheme list, 'c) ICanvasInfo_scheme" where
  "mutateCanvasInfoData_outcome roundToFixed toString canvasInfo =
     Inr (mutateCanvasInfoData roundToFixed toString canvasInfo)"

subsection \<open>The function on a store\<close>

text \<open>
  The same function with its objects in a store, to follow what it writes and what its
  result shares with its argument. An object is named by its address; the canvases, the
  layouts and the arrays of layouts are kept apart by kind, raw and normalised, and all
  addresses come from one counter: \<open>canvasNextAddr\<close> is the first address not yet given
  to an object. An array is the list of the addresses of its elements.
\<close>

type_synonym addr = nat

record ('l, 'c) canvas_store =
  rawInfos :: "addr \<Rightarrow> (addr, 'c) IVertoCanvasInfo_scheme"
  rawLayouts :: "addr \<Rightarrow> 'l IVertoCanvasLayout_scheme"
  arrays :: "addr \<Rightarrow> addr list"
  outLayouts :: "addr \<Rightarrow> 'l ICanvasLayout_scheme"
  outInfos :: "addr \<Rightarrow> (addr, 'c) ICanvasInfo_scheme"
  canvasNextAddr :: addr

text \<open>
  \<^verbatim>\<open>layouts.push({ ... })\<close>: the object literal becomes a new object, and its address goes
  to the end of the array \<^verbatim>\<open>layouts\<close>.
\<close>

definition push_new_layout ::
  "addr \<Rightarrow> 'l ICanvasLayout_scheme \<Rightarrow> ('l, 'c) canvas_store \<Rightarrow> ('l, 'c) canvas_store" where
  "push_new_layout layouts entry s =
     s\<lparr> outLayouts := (outLayouts s)(canvasNextAddr s := entry),
        arrays := (arrays s)(layouts := arrays s layouts @ [canvasNextAddr s]),
        canvasNextAddr := Suc (canvasNextAddr s) \<rparr>"

text \<open>
  The loop reads the length of \<^verbatim>\<open>canvasLayouts\<close> and the element at \<open>i\<close> from the store at
  each turn, as the source does. Nothing in its text bounds the number of turns when
  \<^verbatim>\<open>layouts\<close> and \<^verbatim>\<open>canvasLayouts\<close> are one array: the result is an option, \<open>None\<close> standing
  for a loop that does not end.
\<close>

partial_function (option) canvasLayouts_loop_st ::
  "(jsnum \<Rightarrow> jsnum) \<Rightarrow> (jsnum \<Rightarrow> string) \<Rightarrow> jsnum \<Rightarrow> addr \<Rightarrow> addr \<Rightarrow> nat \<Rightarrow> bool
   \<Rightarrow> ('l, 'c) canvas_store \<Rightarrow> (bool \<times> ('l, 'c) canvas_store) option" where
  "canvasLayouts_loop_st roundToFixed toString scale' canvasLayouts' layouts i layoutOverlap' s =
     (if i < length (arrays s canvasLayouts') then
        canvasLayouts_loop_st roundToFixed toString scale' canvasLayouts' layouts (Suc i)
          (layoutOverlap' \<or>
             strict_equals
               (IVertoCanvasLayout.overlap (rawLayouts s (arrays s canvasLayouts' ! i)))
               (JNumber (Fin 1)))
          (push_new_layout layouts
             (layout_entry roundToFixed toString scale'
                (rawLayouts s (arrays s canvasLayouts' ! i)))
             s)
      else Some (layoutOverlap', s))"

text \<open>
  \<^verbatim>\<open>mutateCanvasInfoData\<close> on the store: \<open>canvasInfo\<close> is the address of the raw canvas. The
  array \<^verbatim>\<open>layouts\<close> is a new, empty array; the object returned is a new object.
\<close>

definition mutateCanvasInfoData_st ::
  "(jsnum \<Rightarrow> jsnum) \<Rightarrow> (jsnum \<Rightarrow> string) \<Rightarrow> ('l, 'c) canvas_store \<Rightarrow> addr
   \<Rightarrow> (addr \<times> ('l, 'c) canvas_store) option" where
  "mutateCanvasInfoData_st roundToFixed toString s canvasInfo =
     (let info = rawInfos s canvasInfo;
          layouts = canvasNextAddr s;
          s1 = s\<lparr> arrays := (arrays s)(layouts := []), canvasNextAddr := Suc (canvasNextAddr s) \<rparr>
      in case canvasLayouts_loop_st roundToFixed toString
                (IVertoCanvasInfo.scale info) (IVertoCanvasInfo.canvasLayouts info)
                layouts 0 False s1 of
           None \<Rightarrow> None
         | Some (layoutOverlap', s2) \<Rightarrow>
             Some (canvasNextAddr s2,
                   s2\<lparr> outInfos := (outInfos s2)
                          (canvasNextAddr s2 :=
                             \<lparr> canvasId = canvasID info,
                               layoutFloorId = layoutFloorID info,
                               scale = IVertoCanvasInfo.scale info,
                               canvasLayouts = layouts,
                               layoutOverlap = layoutOverlap',
                               \<dots> = IVertoCanvasInfo.more info \<rparr>),
                       canvasNextAddr := Suc (canvasNextAddr s2) \<rparr>))"

text \<open>
  The canvas at an address read as a value, the array and its layouts looked up in the
  store: for the raw canvas and for the normalised one.
\<close>

definition raw_canvas_value ::
  "('l, 'c) canvas_store \<Rightarrow> addr \<Rightarrow> ('l IVertoCanvasLayout_scheme list, 'c) IVertoCanvasInfo_scheme" where
  "raw_canvas_value s a =
     \<lparr> canvasID = canvasID (rawInfos s a),
       layoutFloorID = layoutFloorID (rawInfos s a),
       scale = IVertoCanvasInfo.scale (rawInfos s a),
       canvasLayouts = map (rawLayouts s) (arrays s (IVertoCanvasInfo.canvasLayouts (rawInfos s a))),
       \<dots> = IVertoCanvasInfo.more (rawInfos s a) \<rparr>"

definition canvas_value ::
  "('l, 'c) canvas_store \<Rightarrow> addr \<Rightarrow> ('l ICanvasLayout_scheme list, 'c) ICanvasInfo_scheme" where
  "canvas_value s a =
     \<lparr> canvasId = canvasId (outInfos s a),
       layoutFloorId = layoutFloorId (outInfos s a),
       scale = ICanvasInfo.scale (outInfos s a),
       canvasLayouts = map (outLayouts s) (arrays s (ICanvasInfo.canvasLayouts (outInfos s a))),
       layoutOverlap = layoutOverlap (outInfos s a),
       \<dots> = ICanvasInfo.more (outInfos s a) \<rparr>"

section \<open>Media constraints: \<^verbatim>\<open>getMediaConstraints\<close>\<close>

subsection \<open>Objects, references and the store\<close>

text \<open>
  \<^verbatim>\<open>getMediaConstraints\<close> receives an object, reads object references out of it and writes
  through them, so its objects live in a store and are named by their addresses. The
  store holds the options objects and the track constraint objects, each kind under its
  own addresses taken from one counter: \<open>nextAddr\<close> is the first address not yet given to
  an object. The store also records, in order, the calls made to the device-id resolver.
\<close>

text \<open>
  The members of \<^verbatim>\<open>DeviceType\<close> the function names (\<^verbatim>\<open>constants.ts\<close> is not among the sources
  at hand).
\<close>

datatype DeviceType = AudioIn | Video

text \<open>How a promise settles.\<close>

datatype ('e, 'a) settled = Rejected 'e | Fulfilled 'a

text \<open>
  A value of \<^verbatim>\<open>deviceId\<close> in a track constraint object: a bare string, or an object with
  \<^verbatim>\<open>exact\<close> or with \<^verbatim>\<open>ideal\<close>. The function writes \<^verbatim>\<open>{ exact: id }\<close>. The other properties of a
  constraint object are kept by name.
\<close>

datatype ConstrainDOMString = Bare string | Exact string | Ideal string

record MediaTrackConstraints =
  deviceId :: "ConstrainDOMString option"
  others :: "(string \<times> jsval) list"

text \<open>
  \<^verbatim>\<open>audio\<close> and \<^verbatim>\<open>video\<close> are of type \<^verbatim>\<open>boolean | MediaTrackConstraints\<close>: a boolean, or a
  reference to a constraint object.
\<close>

datatype track = TBool bool | TRef addr

text \<open>
  \<^verbatim>\<open>CallOptions\<close>, as the function reads it; \<open>None\<close> is \<^verbatim>\<open>undefined\<close>. The options the
  function does not read are the extension of the record.
\<close>

record CallOptions =
  audio :: "track option"
  micId :: "string option"
  micLabel :: "string option"
  video :: "track option"
  camId :: "string option"
  camLabel :: "string option"

text \<open>The object the function returns, \<^verbatim>\<open>{ audio, video }\<close>.\<close>

record MediaStreamConstraints =
  audio :: track
  video :: track

record 'o media_store =
  optionsObjects :: "addr \<Rightarrow> 'o CallOptions_scheme"
  trackConstraints :: "addr \<Rightarrow> MediaTrackConstraints"
  nextAddr :: addr
  resolverCalls :: "(string \<times> string \<times> DeviceType) list"

subsection \<open>The function\<close>

text \<open>
  The two blocks of \<^verbatim>\<open>getMediaConstraints\<close>, the one for \<^verbatim>\<open>audio\<close> and \<^verbatim>\<open>micId\<close> and the one
  for \<^verbatim>\<open>video\<close> and \<^verbatim>\<open>camId\<close>, are the same statements under two sets of names;
  \<open>preferDevice\<close> is that block, from \<^verbatim>\<open>if (micId)\<close> on. A string is truthy when it is
  neither \<^verbatim>\<open>undefined\<close>, \<^verbatim>\<open>null\<close> nor empty. \<^verbatim>\<open>assureDeviceId\<close> is imported from
  \<^verbatim>\<open>deviceHelpers\<close>, not among the sources at hand: it is a parameter, given by how its
  promise settles on each call; \<^verbatim>\<open>.catch(error => null)\<close> turns a rejection into \<^verbatim>\<open>null\<close>.
  Where \<^verbatim>\<open>typeof track === 'boolean'\<close>, the variable is given a new empty object; then
  \<^verbatim>\<open>deviceId\<close> is written into the object the variable refers to.
\<close>

definition preferDevice ::
  "(string \<Rightarrow> string \<Rightarrow> DeviceType \<Rightarrow> ('e, string option) settled) \<Rightarrow> DeviceType
   \<Rightarrow> track \<Rightarrow> string option \<Rightarrow> string \<Rightarrow> 'o media_store \<Rightarrow> track \<times> 'o media_store" where
  "preferDevice assureDeviceId kind track devId devLabel s =
     (case devId of
        None \<Rightarrow> (track, s)
      | Some i \<Rightarrow>
          if i = [] then (track, s)
          else
            (let s1 = s\<lparr> resolverCalls := resolverCalls s @ [(i, devLabel, kind)] \<rparr>;
                 devId' = (case assureDeviceId i devLabel kind of
                             Rejected error \<Rightarrow> None
                           | Fulfilled v \<Rightarrow> v)
             in case devId' of
                  None \<Rightarrow> (track, s1)
                | Some j \<Rightarrow>
                    if j = [] then (track, s1)
                    else
                      (let (r, s2) =
                             (case track of
                                TBool b \<Rightarrow>
                                  (nextAddr s1,
                                   s1\<lparr> trackConstraints :=
                                         (trackConstraints s1)
                                           (nextAddr s1 := \<lparr> deviceId = None, others = [] \<rparr>),
                                       nextAddr := Suc (nextAddr s1) \<rparr>)
                              | TRef a \<Rightarrow> (a, s1))
                       in (TRef r,
                           s2\<lparr> trackConstraints :=
                                 (trackConstraints s2)
                                   (r := (trackConstraints s2 r)\<lparr> deviceId := Some (Exact j) \<rparr>) \<rparr>))))"

text \<open>
  \<^verbatim>\<open>getMediaConstraints\<close>: \<open>options\<close> is the address of the options object. The object is
  read twice, as in the source: for the audio names first and, after the first block,
  for the video names. The default of a destructuring applies to \<^verbatim>\<open>undefined\<close>. The
  function is \<^verbatim>\<open>async\<close>: its result is how its promise settles, with the store it leaves.
\<close>

definition getMediaConstraints ::
  "(string \<Rightarrow> string \<Rightarrow> DeviceType \<Rightarrow> ('e, string option) settled) \<Rightarrow> 'o media_store \<Rightarrow> addr
   \<Rightarrow> ('e, MediaStreamConstraints) settled \<times> 'o media_store" where
  "getMediaConstraints assureDeviceId s options =
     (let (audio', s1) =
            preferDevice assureDeviceId AudioIn
              (case CallOptions.audio (optionsObjects s options) of None \<Rightarrow> TBool True | Some t \<Rightarrow> t)
              (micId (optionsObjects s options))
              (case micLabel (optionsObjects s options) of None \<Rightarrow> [] | Some l \<Rightarrow> l)
              s;
          (video', s2) =
            preferDevice assureDeviceId Video
              (case CallOptions.video (optionsObjects s1 options) of None \<Rightarrow> TBool False | Some t \<Rightarrow> t)
              (camId (optionsObjects s1 options))
              (case camLabel (optionsObjects s1 options) of None \<Rightarrow> [] | Some l \<Rightarrow> l)
              s1
      in (Fulfilled \<lparr> audio = audio', video = video' \<rparr>, s2))"

section \<open>Properties of the layout catalog\<close>

subsection \<open>The folds and the sort\<close>

lemma layoutReducer_append: "layoutReducer result layout = result @ layoutReducer [] layout"
  by (simp add: layoutReducer_def Let_def)

lemma foldl_layoutReducer:
  "foldl layoutReducer acc ls = acc @ concat (map (layoutReducer []) ls)"
proof (induction ls arbitrary: acc)
  case Nil
  show ?case by simp
next
  case (Cons l ls)
  have "foldl layoutReducer acc (l # ls) = foldl layoutReducer (layoutReducer acc l) ls"
    by simp
  also have "\<dots> = layoutReducer acc l @ concat (map (layoutReducer []) ls)"
    by (rule Cons.IH)
  also have "\<dots> = acc @ concat (map (layoutReducer []) (l # ls))"
    using layoutReducer_append [of acc l] by simp
  finally show ?case .
qed

lemma length_layoutReducer_Nil: "length (layoutReducer [] l) = 1"
  by (simp add: layoutReducer_def Let_def)

lemma length_foldl_layoutReducer: "length (foldl layoutReducer [] ls) = length ls"
  by (induction ls) (simp_all add: foldl_layoutReducer length_layoutReducer_Nil del: foldl_Cons)

lemma layoutCompare_le:
  "layoutCompare a b \<le> 0 \<longleftrightarrow> toLowerCase (label a) \<le> toLowerCase (label b)"
  by (auto simp: layoutCompare_def Let_def)

lemma array_insert_layoutCompare:
  "array_insert layoutCompare a bs = insort_key (\<lambda>e. toLowerCase (label e)) a bs"
  by (induction bs) (simp_all add: layoutCompare_le)

lemma array_sort_layoutCompare:
  "array_sort layoutCompare xs = sort_key (\<lambda>e. toLowerCase (label e)) xs"
  by (induction xs) (simp_all add: array_sort_def array_insert_layoutCompare)

lemma layoutsPartOfGroup_foldl:
  "foldl (\<lambda>cumulative layout. cumulative @ (case groupLayouts layout of None \<Rightarrow> [] | Some g \<Rightarrow> g)) acc gs
   = acc @ concat (map (\<lambda>layout. case groupLayouts layout of None \<Rightarrow> [] | Some g \<Rightarrow> g) gs)"
  by (induction gs arbitrary: acc) simp_all

lemma set_concat_groupLayouts:
  "n \<in> set (concat (map (\<lambda>layout. case groupLayouts layout of None \<Rightarrow> [] | Some g \<Rightarrow> g) gs))
   \<longleftrightarrow> (\<exists>g \<in> set gs. \<exists>ms. groupLayouts g = Some ms \<and> n \<in> set ms)"
  by (induction gs) (auto split: option.splits)

lemma set_layoutsPartOfGroup:
  "n \<in> set (layoutsPartOfGroup gs) \<longleftrightarrow> (\<exists>g \<in> set gs. \<exists>ms. groupLayouts g = Some ms \<and> n \<in> set ms)"
  unfolding layoutsPartOfGroup_def layoutsPartOfGroup_foldl append_Nil
  by (rule set_concat_groupLayouts)

lemma layoutReducer_single: "layoutReducer [] l = [hd (layoutReducer [] l)]"
  by (simp add: layoutReducer_def Let_def)

lemma concat_map_single: "(\<And>a. f a = [g a]) \<Longrightarrow> concat (map f xs) = map g xs"
  by (induction xs) simp_all

lemma foldl_layoutReducer_map:
  "foldl layoutReducer [] ls = map (\<lambda>l. hd (layoutReducer [] l)) ls"
  using concat_map_single [of "layoutReducer []" "\<lambda>l. hd (layoutReducer [] l)" ls]
  by (simp add: foldl_layoutReducer layoutReducer_single [symmetric])

lemma id_hd_layoutReducer: "ILayout.id (hd (layoutReducer [] l)) = name l"
  by (simp add: layoutReducer_def Let_def)

lemma flag_hd_layoutReducer: "\<not> belongsToAGroup (hd (layoutReducer [] l))"
  by (simp add: layoutReducer_def Let_def)

lemma normalList_nth:
  assumes "i < length ls"
  shows "ILayout.id (normalList ls gs ! i) = name (ls ! i)"
    and "belongsToAGroup (normalList ls gs ! i) \<longleftrightarrow>
          (\<exists>g \<in> set gs. \<exists>ms. groupLayouts g = Some ms \<and> name (ls ! i) \<in> set ms)"
  using assms
  by (simp_all add: normalList_def foldl_layoutReducer_map id_hd_layoutReducer set_layoutsPartOfGroup)

lemma groupList_nth:
  assumes "j < length gs"
  shows "ILayout.id (groupList gs ! j) = name (gs ! j)"
    and "\<not> belongsToAGroup (groupList gs ! j)"
  using assms
  by (simp_all add: groupList_def foldl_layoutReducer_map id_hd_layoutReducer flag_hd_layoutReducer)

lemma mset_mungeLayoutList:
  "mset (mungeLayoutList ls gs) = mset (groupList gs) + mset (normalList ls gs)"
  by (simp add: mungeLayoutList_def array_sort_layoutCompare)

lemma label_hd_layoutReducer:
  "label (hd (layoutReducer [] l)) =
     (case displayName l of
        None \<Rightarrow> map (\<lambda>c. if c = CHR ''-'' \<or> c = CHR ''_'' then CHR '' '' else c) (name l)
      | Some d \<Rightarrow> if d = [] then map (\<lambda>c. if c = CHR ''-'' \<or> c = CHR ''_'' then CHR '' '' else c) (name l) else d)"
  by (simp add: layoutReducer_def Let_def replace_separators_def split: option.splits)

lemma catalog_pairs:
  "map (\<lambda>e. (ILayout.id e, label e)) (groupList gs @ normalList ls gs)
   = map (\<lambda>l. (name l, label (hd (layoutReducer [] l)))) (gs @ ls)"
  by (simp add: groupList_def normalList_def foldl_layoutReducer_map id_hd_layoutReducer comp_def)

subsection \<open>Claims about \<^verbatim>\<open>mungeLayoutList\<close>\<close>

text \<open>
  \<^bold>\<open>C5.\<close> The result of \<^verbatim>\<open>mungeLayoutList\<close> holds the entries of \<open>groupList\<close> and of
  \<open>normalList\<close>, no other. The entry at index \<open>i\<close> of \<open>normalList\<close> comes from the flat
  layout at index \<open>i\<close>; its \<^verbatim>\<open>belongsToAGroup\<close> is true exactly when the layout's name is
  in the \<^verbatim>\<open>groupLayouts\<close> of some group, however often it is listed. The entry at index
  \<open>j\<close> of \<open>groupList\<close> comes from the group at index \<open>j\<close> and its \<^verbatim>\<open>belongsToAGroup\<close> is
  false, also when the group's own name is listed in a group.
\<close>

theorem mungeLayoutList_belongsToAGroup:
  "mset (mungeLayoutList layouts layoutGroups)
     = mset (groupList layoutGroups) + mset (normalList layouts layoutGroups)
   \<and> length (normalList layouts layoutGroups) = length layouts
   \<and> (\<forall>i < length layouts.
        ILayout.id (normalList layouts layoutGroups ! i) = name (layouts ! i)
        \<and> (belongsToAGroup (normalList layouts layoutGroups ! i) \<longleftrightarrow>
             (\<exists>g \<in> set layoutGroups. \<exists>ms. groupLayouts g = Some ms \<and> name (layouts ! i) \<in> set ms)))
   \<and> length (groupList layoutGroups) = length layoutGroups
   \<and> (\<forall>j < length layoutGroups.
        ILayout.id (groupList layoutGroups ! j) = name (layoutGroups ! j)
        \<and> \<not> belongsToAGroup (groupList layoutGroups ! j))"
proof (intro conjI allI impI)
  show "mset (mungeLayoutList layouts layoutGroups)
     = mset (groupList layoutGroups) + mset (normalList layouts layoutGroups)"
    by (rule mset_mungeLayoutList)
  show "length (normalList layouts layoutGroups) = length layouts"
    by (simp add: normalList_def length_foldl_layoutReducer)
  show "length (groupList layoutGroups) = length layoutGroups"
    by (simp add: groupList_def length_foldl_layoutReducer)
next
  fix i assume "i < length layouts"
  then show "ILayout.id (normalList layouts layoutGroups ! i) = name (layouts ! i)"
    and "belongsToAGroup (normalList layouts layoutGroups ! i) \<longleftrightarrow>
             (\<exists>g \<in> set layoutGroups. \<exists>ms. groupLayouts g = Some ms \<and> name (layouts ! i) \<in> set ms)"
    by (rule normalList_nth)+
next
  fix j assume "j < length layoutGroups"
  then show "ILayout.id (groupList layoutGroups ! j) = name (layoutGroups ! j)"
    and "\<not> belongsToAGroup (groupList layoutGroups ! j)"
    by (rule groupList_nth)+
qed

text \<open>
  An instance: \<^verbatim>\<open>room-1\<close> is listed twice in a group named \<^verbatim>\<open>room-2\<close>; the entry of the
  flat layout \<^verbatim>\<open>room-1\<close> is flagged.
\<close>

theorem mungeLayoutList_belongsToAGroup_witness:
  "(0::nat) < length [\<lparr>IVertoLayout.type = ''layout'', name = ''room-1'', displayName = None, resIDS = None, groupLayouts = None\<rparr>,
                      \<lparr>IVertoLayout.type = ''layout'', name = ''room-2'', displayName = None, resIDS = None, groupLayouts = None\<rparr>]
   \<and> belongsToAGroup
        (normalList
          [\<lparr>IVertoLayout.type = ''layout'', name = ''room-1'', displayName = None, resIDS = None, groupLayouts = None\<rparr>,
           \<lparr>IVertoLayout.type = ''layout'', name = ''room-2'', displayName = None, resIDS = None, groupLayouts = None\<rparr>]
          [\<lparr>IVertoLayout.type = ''group'', name = ''room-2'', displayName = None, resIDS = None,
              groupLayouts = Some [''room-1'', ''room-1'']\<rparr>] ! 0)"
proof -
  let ?L = "[\<lparr>IVertoLayout.type = ''layout'', name = ''room-1'', displayName = None, resIDS = None, groupLayouts = None\<rparr>,
             \<lparr>IVertoLayout.type = ''layout'', name = ''room-2'', displayName = None, resIDS = None, groupLayouts = None\<rparr>]"
  let ?G = "[\<lparr>IVertoLayout.type = ''group'', name = ''room-2'', displayName = None, resIDS = None,
              groupLayouts = Some [''room-1'', ''room-1'']\<rparr>]"
  have h: "(0::nat) < length ?L" by simp
  note t = mungeLayoutList_belongsToAGroup [of ?L ?G, THEN conjunct2, THEN conjunct2, THEN conjunct1, rule_format, OF h]
  from t have "belongsToAGroup (normalList ?L ?G ! 0)" by simp
  with h show ?thesis by (intro conjI)
qed

text \<open>
  \<^bold>\<open>C6.\<close> The result of \<^verbatim>\<open>mungeLayoutList\<close> is sorted ascending by the lowercased label
  in the lexicographic order on code units, and the sort is stable: for every key, the
  entries with that lowercased label appear in the order they have in the concatenation
  of the group entries followed by the flat entries. The labels \<^verbatim>\<open>Beta\<close>, \<^verbatim>\<open>alpha\<close>,
  \<^verbatim>\<open>Beta\<close> come out as \<^verbatim>\<open>alpha\<close>, \<^verbatim>\<open>Beta\<close>, \<^verbatim>\<open>Beta\<close>, the first \<^verbatim>\<open>Beta\<close> still first.
\<close>

theorem mungeLayoutList_sorted_stable:
  "sorted (map (\<lambda>e. toLowerCase (label e)) (mungeLayoutList layouts layoutGroups))
   \<and> (\<forall>k. filter (\<lambda>e. toLowerCase (label e) = k) (mungeLayoutList layouts layoutGroups)
          = filter (\<lambda>e. toLowerCase (label e) = k)
              (groupList layoutGroups @ normalList layouts layoutGroups))
   \<and> map (\<lambda>e. (ILayout.id e, label e))
       (mungeLayoutList
          [\<lparr>IVertoLayout.type = ''layout'', name = ''b1'', displayName = Some ''Beta'', resIDS = None, groupLayouts = None\<rparr>,
           \<lparr>IVertoLayout.type = ''layout'', name = ''a'', displayName = Some ''alpha'', resIDS = None, groupLayouts = None\<rparr>,
           \<lparr>IVertoLayout.type = ''layout'', name = ''b2'', displayName = Some ''Beta'', resIDS = None, groupLayouts = None\<rparr>]
          [])
     = [(''a'', ''alpha''), (''b1'', ''Beta''), (''b2'', ''Beta'')]"
proof (intro conjI)
  show "sorted (map (\<lambda>e. toLowerCase (label e)) (mungeLayoutList layouts layoutGroups))"
    unfolding mungeLayoutList_def array_sort_layoutCompare by (rule sorted_sort_key)
  show "\<forall>k. filter (\<lambda>e. toLowerCase (label e) = k) (mungeLayoutList layouts layoutGroups)
          = filter (\<lambda>e. toLowerCase (label e) = k)
              (groupList layoutGroups @ normalList layouts layoutGroups)"
    unfolding mungeLayoutList_def array_sort_layoutCompare by (simp only: sort_key_stable simp_thms)
  show "map (\<lambda>e. (ILayout.id e, label e))
       (mungeLayoutList
          [\<lparr>IVertoLayout.type = ''layout'', name = ''b1'', displayName = Some ''Beta'', resIDS = None, groupLayouts = None\<rparr>,
           \<lparr>IVertoLayout.type = ''layout'', name = ''a'', displayName = Some ''alpha'', resIDS = None, groupLayouts = None\<rparr>,
           \<lparr>IVertoLayout.type = ''layout'', name = ''b2'', displayName = Some ''Beta'', resIDS = None, groupLayouts = None\<rparr>]
          [])
     = [(''a'', ''alpha''), (''b1'', ''Beta''), (''b2'', ''Beta'')]"
    by code_simp
qed

text \<open>
  \<^bold>\<open>C7.\<close> The result of \<^verbatim>\<open>mungeLayoutList\<close> has as many entries as there are layouts and
  groups together, for all inputs, the empty ones included.
\<close>

theorem mungeLayoutList_length:
  "length (mungeLayoutList layouts layoutGroups) = length layouts + length layoutGroups"
  by (simp add: mungeLayoutList_def array_sort_layoutCompare normalList_def groupList_def
      length_foldl_layoutReducer)

text \<open>
  \<^bold>\<open>C8\<close>, as stated, fails where a display name is supplied and is the empty string: the
  operator \<^verbatim>\<open>||\<close> takes the right operand, so the label is derived from the name and is
  not the display name.
\<close>

theorem layoutReducer_label_empty_displayName:
  "map label (layoutReducer []
      \<lparr>IVertoLayout.type = ''layout'', name = ''2x2_grid'', displayName = Some [], resIDS = None, groupLayouts = None\<rparr>)
   \<noteq> [the (displayName
      \<lparr>IVertoLayout.type = ''layout'', name = ''2x2_grid'', displayName = Some [], resIDS = None, groupLayouts = None\<rparr>)]"
  by (simp add: layoutReducer_def replace_separators_def)

text \<open>
  \<^bold>\<open>C8\<close>, amended. The label of a catalog entry is the display name when a non-empty one
  is supplied; when the display name is absent or is the empty string, it is the name
  with every hyphen and every underscore replaced by a space. This holds of the entry
  the reducer appends, and of the entries of the whole catalog, paired with their ids.
  The name \<^verbatim>\<open>2x2_grid\<close> alone gives \<^verbatim>\<open>2x2 grid\<close>; with the display name \<^verbatim>\<open>Grid View\<close> it
  gives \<^verbatim>\<open>Grid View\<close>.
\<close>

theorem layoutReducer_label:
  "map label (layoutReducer result layout)
     = map label result @
       [case displayName layout of
          None \<Rightarrow> map (\<lambda>c. if c = CHR ''-'' \<or> c = CHR ''_'' then CHR '' '' else c) (name layout)
        | Some d \<Rightarrow>
            if d = [] then map (\<lambda>c. if c = CHR ''-'' \<or> c = CHR ''_'' then CHR '' '' else c) (name layout)
            else d]
   \<and> mset (map (\<lambda>e. (ILayout.id e, label e)) (mungeLayoutList layouts layoutGroups))
     = mset (map (\<lambda>l. (name l,
                case displayName l of
                  None \<Rightarrow> map (\<lambda>c. if c = CHR ''-'' \<or> c = CHR ''_'' then CHR '' '' else c) (name l)
                | Some d \<Rightarrow>
                    if d = [] then map (\<lambda>c. if c = CHR ''-'' \<or> c = CHR ''_'' then CHR '' '' else c) (name l)
                    else d))
          (layoutGroups @ layouts))
   \<and> map label (layoutReducer []
        \<lparr>IVertoLayout.type = ''layout'', name = ''2x2_grid'', displayName = None, resIDS = None, groupLayouts = None\<rparr>)
     = [''2x2 grid'']
   \<and> map label (layoutReducer []
        \<lparr>IVertoLayout.type = ''layout'', name = ''2x2_grid'', displayName = Some ''Grid View'', resIDS = None, groupLayouts = None\<rparr>)
     = [''Grid View'']"
proof (intro conjI)
  show "map label (layoutReducer result layout)
     = map label result @
       [case displayName layout of
          None \<Rightarrow> map (\<lambda>c. if c = CHR ''-'' \<or> c = CHR ''_'' then CHR '' '' else c) (name layout)
        | Some d \<Rightarrow>
            if d = [] then map (\<lambda>c. if c = CHR ''-'' \<or> c = CHR ''_'' then CHR '' '' else c) (name layout)
            else d]"
    by (simp add: layoutReducer_def Let_def replace_separators_def split: option.splits)
  have "mset (map (\<lambda>e. (ILayout.id e, label e)) (mungeLayoutList layouts layoutGroups))
      = mset (map (\<lambda>e. (ILayout.id e, label e)) (groupList layoutGroups @ normalList layouts layoutGroups))"
    unfolding mungeLayoutList_def array_sort_layoutCompare by (simp only: mset_map mset_sort)
  then show "mset (map (\<lambda>e. (ILayout.id e, label e)) (mungeLayoutList layouts layoutGroups))
     = mset (map (\<lambda>l. (name l,
                case displayName l of
                  None \<Rightarrow> map (\<lambda>c. if c = CHR ''-'' \<or> c = CHR ''_'' then CHR '' '' else c) (name l)
                | Some d \<Rightarrow>
                    if d = [] then map (\<lambda>c. if c = CHR ''-'' \<or> c = CHR ''_'' then CHR '' '' else c) (name l)
                    else d))
          (layoutGroups @ layouts))"
    by (simp only: catalog_pairs label_hd_layoutReducer)
  show "map label (layoutReducer []
        \<lparr>IVertoLayout.type = ''layout'', name = ''2x2_grid'', displayName = None, resIDS = None, groupLayouts = None\<rparr>)
     = [''2x2 grid'']"
    by (simp add: layoutReducer_def replace_separators_def)
  show "map label (layoutReducer []
        \<lparr>IVertoLayout.type = ''layout'', name = ''2x2_grid'', displayName = Some ''Grid View'', resIDS = None, groupLayouts = None\<rparr>)
     = [''Grid View'']"
    by (simp add: layoutReducer_def replace_separators_def)
qed

section \<open>Properties of the canvas\<close>

subsection \<open>The loop as a map\<close>

lemma canvasLayouts_loop_eq:
  "canvasLayouts_loop rtf ts sc cls i (acc, ov) =
     (acc @ map (layout_entry rtf ts sc) (drop i cls),
      ov \<or> (\<exists>l \<in> set (drop i cls). strict_equals (IVertoCanvasLayout.overlap l) (JNumber (Fin 1))))"
proof (induction rtf ts sc cls i "(acc, ov)" arbitrary: acc ov rule: canvasLayouts_loop.induct)
  case (1 rtf ts sc cls i acc ov)
  show ?case
  proof (cases "i < length cls")
    case True
    then have d: "drop i cls = cls ! i # drop (Suc i) cls"
      by (simp add: Cons_nth_drop_Suc)
    show ?thesis
      by (subst canvasLayouts_loop.simps) (simp add: True "1.hyps" [OF True refl] d Let_def)
  next
    case False
    then show ?thesis
      by (subst canvasLayouts_loop.simps) simp
  qed
qed

lemma canvasLayouts_mutate:
  "ICanvasInfo.canvasLayouts (mutateCanvasInfoData rtf ts c) =
     fst (canvasLayouts_loop rtf ts (IVertoCanvasInfo.scale c) (IVertoCanvasInfo.canvasLayouts c) 0 ([], False))"
  by (simp add: mutateCanvasInfoData_def split: prod.splits)

lemma layoutOverlap_mutate:
  "layoutOverlap (mutateCanvasInfoData rtf ts c) =
     snd (canvasLayouts_loop rtf ts (IVertoCanvasInfo.scale c) (IVertoCanvasInfo.canvasLayouts c) 0 ([], False))"
  by (simp add: mutateCanvasInfoData_def split: prod.splits)

lemma length_canvasLayouts_mutate:
  "length (ICanvasInfo.canvasLayouts (mutateCanvasInfoData rtf ts c)) =
     length (IVertoCanvasInfo.canvasLayouts c)"
  by (simp add: canvasLayouts_mutate canvasLayouts_loop_eq)

lemma nth_canvasLayouts_mutate:
  assumes "i < length (IVertoCanvasInfo.canvasLayouts c)"
  shows "ICanvasInfo.canvasLayouts (mutateCanvasInfoData rtf ts c) ! i =
           layout_entry rtf ts (IVertoCanvasInfo.scale c) (IVertoCanvasInfo.canvasLayouts c ! i)"
  using assms by (simp add: canvasLayouts_mutate canvasLayouts_loop_eq)

lemma percentage_finite:
  assumes "0 < s"
  shows "js_mul (js_div (Fin a) (Fin s)) (Fin 100) = Fin (a / s * 100)"
  using assms
  by (simp add: js_div_def js_mul_def is_zero_def is_infinite_def signed_zero_def)

lemma percentage_zero_scale:
  assumes "is_zero sc"
  shows "js_mul (js_div v sc) (Fin 100) \<in> {PosInf, NegInf, NaN}"
  using assms
  by (cases v) (auto simp: js_div_def js_mul_def is_zero_def is_infinite_def signed_zero_def signed_infinity_def)

lemma strict_equals_one: "strict_equals v (JNumber (Fin 1)) \<longleftrightarrow> v = JNumber (Fin 1)"
  by (cases v) (auto simp: is_zero_def)

lemma layoutOverlap_iff:
  "layoutOverlap (mutateCanvasInfoData rtf ts c) \<longleftrightarrow>
     (\<exists>i < length (IVertoCanvasInfo.canvasLayouts c).
        IVertoCanvasLayout.overlap (IVertoCanvasInfo.canvasLayouts c ! i) = JNumber (Fin 1))"
  by (simp add: layoutOverlap_mutate canvasLayouts_loop_eq strict_equals_one)
    (metis in_set_conv_nth)

lemma layoutOverlap_set:
  "layoutOverlap (mutateCanvasInfoData rtf ts c) \<longleftrightarrow>
     JNumber (Fin 1) \<in> set (map IVertoCanvasLayout.overlap (IVertoCanvasInfo.canvasLayouts c))"
  by (simp add: layoutOverlap_mutate canvasLayouts_loop_eq strict_equals_one image_iff) metis

lemma print_25: "numberToString (round2 (Fin (50 / 200 * 100))) @ ''%'' = ''25%''"
  by code_simp


subsection \<open>Claims about \<^verbatim>\<open>mutateCanvasInfoData\<close>\<close>



text \<open>
  \<^bold>\<open>C2.\<close> The flag \<^verbatim>\<open>layoutOverlap\<close> of the result is true exactly when some input layout
  has an \<^verbatim>\<open>overlap\<close> that is the number 1. The overlap values 0, 0, 1 give true; 0, 0, 0
  and 0, 0, 2 give false, and so does the string \<^verbatim>\<open>"1"\<close>, the comparison being strict.
\<close>

theorem mutateCanvasInfoData_layoutOverlap:
  "(layoutOverlap (mutateCanvasInfoData roundToFixed toString canvasInfo) \<longleftrightarrow>
      (\<exists>i < length (IVertoCanvasInfo.canvasLayouts canvasInfo).
         IVertoCanvasLayout.overlap (IVertoCanvasInfo.canvasLayouts canvasInfo ! i) = JNumber (Fin 1)))
   \<and> (map IVertoCanvasLayout.overlap (IVertoCanvasInfo.canvasLayouts canvasInfo)
        = [JNumber (Fin 0), JNumber (Fin 0), JNumber (Fin 1)] \<longrightarrow>
      layoutOverlap (mutateCanvasInfoData roundToFixed toString canvasInfo))
   \<and> (map IVertoCanvasLayout.overlap (IVertoCanvasInfo.canvasLayouts canvasInfo)
        = [JNumber (Fin 0), JNumber (Fin 0), JNumber (Fin 0)] \<longrightarrow>
      \<not> layoutOverlap (mutateCanvasInfoData roundToFixed toString canvasInfo))
   \<and> (map IVertoCanvasLayout.overlap (IVertoCanvasInfo.canvasLayouts canvasInfo)
        = [JNumber (Fin 0), JNumber (Fin 0), JNumber (Fin 2)] \<longrightarrow>
      \<not> layoutOverlap (mutateCanvasInfoData roundToFixed toString canvasInfo))
   \<and> (map IVertoCanvasLayout.overlap (IVertoCanvasInfo.canvasLayouts canvasInfo)
        = [JNumber (Fin 0), JNumber (Fin 0), JString ''1''] \<longrightarrow>
      \<not> layoutOverlap (mutateCanvasInfoData roundToFixed toString canvasInfo))"
proof (intro conjI impI)
  show "layoutOverlap (mutateCanvasInfoData roundToFixed toString canvasInfo) \<longleftrightarrow>
      (\<exists>i < length (IVertoCanvasInfo.canvasLayouts canvasInfo).
         IVertoCanvasLayout.overlap (IVertoCanvasInfo.canvasLayouts canvasInfo ! i) = JNumber (Fin 1))"
    by (rule layoutOverlap_iff)
next
  assume "map IVertoCanvasLayout.overlap (IVertoCanvasInfo.canvasLayouts canvasInfo)
        = [JNumber (Fin 0), JNumber (Fin 0), JNumber (Fin 1)]"
  then show "layoutOverlap (mutateCanvasInfoData roundToFixed toString canvasInfo)"
    by (simp only: layoutOverlap_set) simp
next
  assume "map IVertoCanvasLayout.overlap (IVertoCanvasInfo.canvasLayouts canvasInfo)
        = [JNumber (Fin 0), JNumber (Fin 0), JNumber (Fin 0)]"
  then show "\<not> layoutOverlap (mutateCanvasInfoData roundToFixed toString canvasInfo)"
    by (simp only: layoutOverlap_set) simp
next
  assume "map IVertoCanvasLayout.overlap (IVertoCanvasInfo.canvasLayouts canvasInfo)
        = [JNumber (Fin 0), JNumber (Fin 0), JNumber (Fin 2)]"
  then show "\<not> layoutOverlap (mutateCanvasInfoData roundToFixed toString canvasInfo)"
    by (simp only: layoutOverlap_set) simp
next
  assume "map IVertoCanvasLayout.overlap (IVertoCanvasInfo.canvasLayouts canvasInfo)
        = [JNumber (Fin 0), JNumber (Fin 0), JString ''1'']"
  then show "\<not> layoutOverlap (mutateCanvasInfoData roundToFixed toString canvasInfo)"
    by (simp only: layoutOverlap_set) simp
qed

text \<open>An instance: three layouts, the third one overlapping.\<close>

theorem mutateCanvasInfoData_layoutOverlap_witness:
  "layoutOverlap (mutateCanvasInfoData round2 numberToString
     \<lparr> canvasID = JNumber (Fin 1), layoutFloorID = JNumber (Fin (- 1)), scale = Fin 360,
       canvasLayouts =
         [\<lparr> memberID = JNumber (Fin 1), audioPOS = JUndefined, xPOS = JUndefined, yPOS = JUndefined,
            x = Fin 0, y = Fin 0, scale = Fin 180, hscale = Fin 180, overlap = JNumber (Fin 0) \<rparr>,
          \<lparr> memberID = JNumber (Fin 2), audioPOS = JUndefined, xPOS = JUndefined, yPOS = JUndefined,
            x = Fin 180, y = Fin 0, scale = Fin 180, hscale = Fin 180, overlap = JNumber (Fin 0) \<rparr>,
          \<lparr> memberID = JNumber (Fin 3), audioPOS = JUndefined, xPOS = JUndefined, yPOS = JUndefined,
            x = Fin 90, y = Fin 90, scale = Fin 180, hscale = Fin 180, overlap = JNumber (Fin 1) \<rparr>] \<rparr>)"
proof -
  let ?C = "\<lparr> canvasID = JNumber (Fin 1), layoutFloorID = JNumber (Fin (- 1)), scale = Fin 360,
       canvasLayouts =
         [\<lparr> memberID = JNumber (Fin 1), audioPOS = JUndefined, xPOS = JUndefined, yPOS = JUndefined,
            x = Fin 0, y = Fin 0, scale = Fin 180, hscale = Fin 180, overlap = JNumber (Fin 0) \<rparr>,
          \<lparr> memberID = JNumber (Fin 2), audioPOS = JUndefined, xPOS = JUndefined, yPOS = JUndefined,
            x = Fin 180, y = Fin 0, scale = Fin 180, hscale = Fin 180, overlap = JNumber (Fin 0) \<rparr>,
          \<lparr> memberID = JNumber (Fin 3), audioPOS = JUndefined, xPOS = JUndefined, yPOS = JUndefined,
            x = Fin 90, y = Fin 90, scale = Fin 180, hscale = Fin 180, overlap = JNumber (Fin 1) \<rparr>] \<rparr>"
  have h: "map IVertoCanvasLayout.overlap (IVertoCanvasInfo.canvasLayouts ?C)
        = [JNumber (Fin 0), JNumber (Fin 0), JNumber (Fin 1)]"
    by simp
  from mutateCanvasInfoData_layoutOverlap [of round2 numberToString ?C, THEN conjunct2, THEN conjunct1] h
  show ?thesis by (rule mp)
qed

text \<open>
  \<^bold>\<open>C3\<close>, as stated, fails: on a canvas whose scale is zero the function raises nothing.
  It returns, and the value it hands to \<^verbatim>\<open>roundToFixed\<close> for an \<^verbatim>\<open>x\<close> of 1 is Infinity.
\<close>

theorem mutateCanvasInfoData_zero_scale_no_error:
  "mutateCanvasInfoData_outcome round2 numberToString
     \<lparr> canvasID = JNumber (Fin 1), layoutFloorID = JNumber (Fin (- 1)), scale = Fin 0,
       canvasLayouts =
         [\<lparr> memberID = JNumber (Fin 7), audioPOS = JUndefined, xPOS = JUndefined, yPOS = JUndefined,
            x = Fin 1, y = Fin 0, scale = Fin 1, hscale = Fin 1, overlap = JNumber (Fin 0) \<rparr>] \<rparr>
   \<noteq> Inl InvalidArgument
   \<and> map startX (ICanvasInfo.canvasLayouts (mutateCanvasInfoData round2 numberToString
     \<lparr> canvasID = JNumber (Fin 1), layoutFloorID = JNumber (Fin (- 1)), scale = Fin 0,
       canvasLayouts =
         [\<lparr> memberID = JNumber (Fin 7), audioPOS = JUndefined, xPOS = JUndefined, yPOS = JUndefined,
            x = Fin 1, y = Fin 0, scale = Fin 1, hscale = Fin 1, overlap = JNumber (Fin 0) \<rparr>] \<rparr>))
     = [numberToString (round2 PosInf) @ ''%'']"
  by (simp add: mutateCanvasInfoData_outcome_def canvasLayouts_mutate canvasLayouts_loop_eq
      layout_entry_def js_div_def js_mul_def is_zero_def is_infinite_def signed_infinity_def)

text \<open>
  \<^bold>\<open>C3\<close>, amended. On a canvas whose scale is zero, of either sign, the function raises
  no error: it returns a canvas with as many layouts as the input, in which each of the
  four percentage strings is the string form of \<^verbatim>\<open>roundToFixed\<close> applied to Infinity,
  to -Infinity or to NaN, followed by the percent sign.
\<close>

theorem mutateCanvasInfoData_zero_scale:
  assumes "is_zero (IVertoCanvasInfo.scale canvasInfo)"
  shows
    "mutateCanvasInfoData_outcome roundToFixed toString canvasInfo
       = Inr (mutateCanvasInfoData roundToFixed toString canvasInfo)
     \<and> length (ICanvasInfo.canvasLayouts (mutateCanvasInfoData roundToFixed toString canvasInfo))
       = length (IVertoCanvasInfo.canvasLayouts canvasInfo)
     \<and> (\<forall>i < length (IVertoCanvasInfo.canvasLayouts canvasInfo).
          (\<exists>v \<in> {PosInf, NegInf, NaN}.
             startX (ICanvasInfo.canvasLayouts (mutateCanvasInfoData roundToFixed toString canvasInfo) ! i)
               = toString (roundToFixed v) @ ''%'')
        \<and> (\<exists>v \<in> {PosInf, NegInf, NaN}.
             startY (ICanvasInfo.canvasLayouts (mutateCanvasInfoData roundToFixed toString canvasInfo) ! i)
               = toString (roundToFixed v) @ ''%'')
        \<and> (\<exists>v \<in> {PosInf, NegInf, NaN}.
             percentageWidth (ICanvasInfo.canvasLayouts (mutateCanvasInfoData roundToFixed toString canvasInfo) ! i)
               = toString (roundToFixed v) @ ''%'')
        \<and> (\<exists>v \<in> {PosInf, NegInf, NaN}.
             percentageHeight (ICanvasInfo.canvasLayouts (mutateCanvasInfoData roundToFixed toString canvasInfo) ! i)
               = toString (roundToFixed v) @ ''%''))"
proof (intro conjI allI impI)
  show "mutateCanvasInfoData_outcome roundToFixed toString canvasInfo
       = Inr (mutateCanvasInfoData roundToFixed toString canvasInfo)"
    by (simp add: mutateCanvasInfoData_outcome_def)
  show "length (ICanvasInfo.canvasLayouts (mutateCanvasInfoData roundToFixed toString canvasInfo))
       = length (IVertoCanvasInfo.canvasLayouts canvasInfo)"
    by (rule length_canvasLayouts_mutate)
next
  fix i assume i: "i < length (IVertoCanvasInfo.canvasLayouts canvasInfo)"
  note n = nth_canvasLayouts_mutate [OF i, of roundToFixed toString]
  note z = percentage_zero_scale [OF assms]
  show "\<exists>v \<in> {PosInf, NegInf, NaN}.
             startX (ICanvasInfo.canvasLayouts (mutateCanvasInfoData roundToFixed toString canvasInfo) ! i)
               = toString (roundToFixed v) @ ''%''"
    using z [of "IVertoCanvasLayout.x (IVertoCanvasInfo.canvasLayouts canvasInfo ! i)"]
    by (simp only: n layout_entry_def ICanvasLayout.simps) blast
  show "\<exists>v \<in> {PosInf, NegInf, NaN}.
             startY (ICanvasInfo.canvasLayouts (mutateCanvasInfoData roundToFixed toString canvasInfo) ! i)
               = toString (roundToFixed v) @ ''%''"
    using z [of "IVertoCanvasLayout.y (IVertoCanvasInfo.canvasLayouts canvasInfo ! i)"]
    by (simp only: n layout_entry_def ICanvasLayout.simps) blast
  show "\<exists>v \<in> {PosInf, NegInf, NaN}.
             percentageWidth (ICanvasInfo.canvasLayouts (mutateCanvasInfoData roundToFixed toString canvasInfo) ! i)
               = toString (roundToFixed v) @ ''%''"
    using z [of "IVertoCanvasLayout.scale (IVertoCanvasInfo.canvasLayouts canvasInfo ! i)"]
    by (simp only: n layout_entry_def ICanvasLayout.simps) blast
  show "\<exists>v \<in> {PosInf, NegInf, NaN}.
             percentageHeight (ICanvasInfo.canvasLayouts (mutateCanvasInfoData roundToFixed toString canvasInfo) ! i)
               = toString (roundToFixed v) @ ''%''"
    using z [of "IVertoCanvasLayout.hscale (IVertoCanvasInfo.canvasLayouts canvasInfo ! i)"]
    by (simp only: n layout_entry_def ICanvasLayout.simps) blast
qed

text \<open>An instance: the canvas of scale 0 with one layout.\<close>

theorem mutateCanvasInfoData_zero_scale_witness:
  "is_zero (Fin 0)
   \<and> mutateCanvasInfoData_outcome round2 numberToString
        \<lparr> canvasID = JNumber (Fin 1), layoutFloorID = JNumber (Fin (- 1)), scale = Fin 0,
          canvasLayouts =
            [\<lparr> memberID = JNumber (Fin 7), audioPOS = JUndefined, xPOS = JUndefined, yPOS = JUndefined,
               x = Fin 1, y = Fin 0, scale = Fin 1, hscale = Fin 1, overlap = JNumber (Fin 0) \<rparr>] \<rparr>
      = Inr (mutateCanvasInfoData round2 numberToString
        \<lparr> canvasID = JNumber (Fin 1), layoutFloorID = JNumber (Fin (- 1)), scale = Fin 0,
          canvasLayouts =
            [\<lparr> memberID = JNumber (Fin 7), audioPOS = JUndefined, xPOS = JUndefined, yPOS = JUndefined,
               x = Fin 1, y = Fin 0, scale = Fin 1, hscale = Fin 1, overlap = JNumber (Fin 0) \<rparr>] \<rparr>)
   \<and> (\<exists>v \<in> {PosInf, NegInf, NaN}.
        startX (ICanvasInfo.canvasLayouts (mutateCanvasInfoData round2 numberToString
        \<lparr> canvasID = JNumber (Fin 1), layoutFloorID = JNumber (Fin (- 1)), scale = Fin 0,
          canvasLayouts =
            [\<lparr> memberID = JNumber (Fin 7), audioPOS = JUndefined, xPOS = JUndefined, yPOS = JUndefined,
               x = Fin 1, y = Fin 0, scale = Fin 1, hscale = Fin 1, overlap = JNumber (Fin 0) \<rparr>] \<rparr>) ! 0)
          = numberToString (round2 v) @ ''%'')"
proof -
  let ?C = "\<lparr> canvasID = JNumber (Fin 1), layoutFloorID = JNumber (Fin (- 1)), scale = Fin 0,
          canvasLayouts =
            [\<lparr> memberID = JNumber (Fin 7), audioPOS = JUndefined, xPOS = JUndefined, yPOS = JUndefined,
               x = Fin 1, y = Fin 0, scale = Fin 1, hscale = Fin 1, overlap = JNumber (Fin 0) \<rparr>] \<rparr>"
  have z: "is_zero (Fin 0)" by (simp add: is_zero_def)
  then have h: "is_zero (IVertoCanvasInfo.scale ?C)" by simp
  have i: "0 < length (IVertoCanvasInfo.canvasLayouts ?C)" by simp
  note t = mutateCanvasInfoData_zero_scale [OF h, of round2 numberToString]
  from z t [THEN conjunct1]
    t [THEN conjunct2, THEN conjunct2, rule_format, OF i, THEN conjunct1]
  show ?thesis by (intro conjI)
qed

section \<open>Properties of the media constraints\<close>

subsection \<open>The block, case by case\<close>

lemma preferDevice_falsy:
  "devId = None \<or> devId = Some [] \<Longrightarrow> preferDevice A kind track devId devLabel s = (track, s)"
  by (auto simp: preferDevice_def)

lemma preferDevice_rejected:
  "devId = Some i \<Longrightarrow> i \<noteq> [] \<Longrightarrow> A i devLabel kind = Rejected e \<Longrightarrow>
   preferDevice A kind track devId devLabel s
     = (track, s\<lparr> resolverCalls := resolverCalls s @ [(i, devLabel, kind)] \<rparr>)"
  by (simp add: preferDevice_def)

lemma preferDevice_unresolved:
  "devId = Some i \<Longrightarrow> i \<noteq> [] \<Longrightarrow> A i devLabel kind = Fulfilled v \<Longrightarrow> v = None \<or> v = Some [] \<Longrightarrow>
   preferDevice A kind track devId devLabel s
     = (track, s\<lparr> resolverCalls := resolverCalls s @ [(i, devLabel, kind)] \<rparr>)"
  by (auto simp: preferDevice_def)

lemma preferDevice_resolved_bool:
  "devId = Some i \<Longrightarrow> i \<noteq> [] \<Longrightarrow> A i devLabel kind = Fulfilled (Some j) \<Longrightarrow> j \<noteq> [] \<Longrightarrow>
   preferDevice A kind (TBool b) devId devLabel s
     = (TRef (nextAddr s),
        s\<lparr> resolverCalls := resolverCalls s @ [(i, devLabel, kind)],
           trackConstraints := (trackConstraints s)
              (nextAddr s := \<lparr> deviceId = Some (Exact j), others = [] \<rparr>),
           nextAddr := Suc (nextAddr s) \<rparr>)"
  by (simp add: preferDevice_def)

lemma preferDevice_resolved_ref:
  "devId = Some i \<Longrightarrow> i \<noteq> [] \<Longrightarrow> A i devLabel kind = Fulfilled (Some j) \<Longrightarrow> j \<noteq> [] \<Longrightarrow>
   preferDevice A kind (TRef a) devId devLabel s
     = (TRef a,
        s\<lparr> resolverCalls := resolverCalls s @ [(i, devLabel, kind)],
           trackConstraints := (trackConstraints s)
              (a := (trackConstraints s a)\<lparr> deviceId := Some (Exact j) \<rparr>) \<rparr>)"
  by (simp add: preferDevice_def)

lemma preferDevice_cases:
  obtains (same) "fst (preferDevice A kind track devId devLabel s) = track"
      "trackConstraints (snd (preferDevice A kind track devId devLabel s)) = trackConstraints s"
      "nextAddr (snd (preferDevice A kind track devId devLabel s)) = nextAddr s"
    | (fresh) b i j where "track = TBool b" "devId = Some i" "i \<noteq> []"
      "A i devLabel kind = Fulfilled (Some j)" "j \<noteq> []"
    | (written) a i j where "track = TRef a" "devId = Some i" "i \<noteq> []"
      "A i devLabel kind = Fulfilled (Some j)" "j \<noteq> []"
proof (cases devId)
  case None
  then show ?thesis using same by (simp add: preferDevice_falsy)
next
  case (Some i)
  show ?thesis
  proof (cases "i = []")
    case True
    with Some show ?thesis using same by (simp add: preferDevice_falsy)
  next
    case False
    show ?thesis
    proof (cases "A i devLabel kind")
      case (Rejected e)
      with Some False show ?thesis using same by (simp add: preferDevice_rejected)
    next
      case (Fulfilled v)
      show ?thesis
      proof (cases "v = None \<or> v = Some []")
        case True
        with Some False Fulfilled show ?thesis
          using same by (simp add: preferDevice_unresolved [where v = v])
      next
        case nf: False
        then obtain j where j: "v = Some j" "j \<noteq> []" by (cases v) auto
        show ?thesis
        proof (cases track)
          case (TBool b)
          with Some False Fulfilled j show ?thesis using fresh by blast
        next
          case (TRef a)
          with Some False Fulfilled j show ?thesis using written by blast
        qed
      qed
    qed
  qed
qed

lemma preferDevice_options:
  "optionsObjects (snd (preferDevice A kind track devId devLabel s)) = optionsObjects s"
  by (auto simp: preferDevice_def Let_def split: option.splits settled.splits track.splits)

lemma getMediaConstraints_eq:
  "getMediaConstraints A s options =
     (Fulfilled
        \<lparr> audio = fst (preferDevice A AudioIn
             (case CallOptions.audio (optionsObjects s options) of None \<Rightarrow> TBool True | Some t \<Rightarrow> t)
             (micId (optionsObjects s options))
             (case micLabel (optionsObjects s options) of None \<Rightarrow> [] | Some l \<Rightarrow> l) s),
          video = fst (preferDevice A Video
             (case CallOptions.video (optionsObjects s options) of None \<Rightarrow> TBool False | Some t \<Rightarrow> t)
             (camId (optionsObjects s options))
             (case camLabel (optionsObjects s options) of None \<Rightarrow> [] | Some l \<Rightarrow> l)
             (snd (preferDevice A AudioIn
               (case CallOptions.audio (optionsObjects s options) of None \<Rightarrow> TBool True | Some t \<Rightarrow> t)
               (micId (optionsObjects s options))
               (case micLabel (optionsObjects s options) of None \<Rightarrow> [] | Some l \<Rightarrow> l) s))) \<rparr>,
      snd (preferDevice A Video
             (case CallOptions.video (optionsObjects s options) of None \<Rightarrow> TBool False | Some t \<Rightarrow> t)
             (camId (optionsObjects s options))
             (case camLabel (optionsObjects s options) of None \<Rightarrow> [] | Some l \<Rightarrow> l)
             (snd (preferDevice A AudioIn
               (case CallOptions.audio (optionsObjects s options) of None \<Rightarrow> TBool True | Some t \<Rightarrow> t)
               (micId (optionsObjects s options))
               (case micLabel (optionsObjects s options) of None \<Rightarrow> [] | Some l \<Rightarrow> l) s))))"
proof -
  obtain t1 s1 where p1: "preferDevice A AudioIn
             (case CallOptions.audio (optionsObjects s options) of None \<Rightarrow> TBool True | Some t \<Rightarrow> t)
             (micId (optionsObjects s options))
             (case micLabel (optionsObjects s options) of None \<Rightarrow> [] | Some l \<Rightarrow> l) s = (t1, s1)"
    by (cases "preferDevice A AudioIn
             (case CallOptions.audio (optionsObjects s options) of None \<Rightarrow> TBool True | Some t \<Rightarrow> t)
             (micId (optionsObjects s options))
             (case micLabel (optionsObjects s options) of None \<Rightarrow> [] | Some l \<Rightarrow> l) s")
  have o: "optionsObjects s1 = optionsObjects s"
    using preferDevice_options [of A AudioIn _ _ _ s] p1 by (metis snd_conv)
  show ?thesis
    by (simp add: getMediaConstraints_def p1 o split: prod.splits)
qed

lemma preferDevice_written:
  assumes "trackConstraints (snd (preferDevice A kind track devId devLabel s)) a \<noteq> trackConstraints s a"
  shows "fst (preferDevice A kind track devId devLabel s) = TRef a"
proof (cases rule: preferDevice_cases [of A kind track devId devLabel s])
  case same
  with assms show ?thesis by simp
next
  case (fresh b i j)
  with assms show ?thesis
    by (simp add: preferDevice_resolved_bool split: if_splits)
next
  case (written a' i j)
  with assms show ?thesis
    by (simp add: preferDevice_resolved_ref split: if_splits)
qed

lemma preferDevice_calls:
  "resolverCalls (snd (preferDevice A kind track devId devLabel s)) =
     resolverCalls s @ (case devId of None \<Rightarrow> [] | Some i \<Rightarrow> if i = [] then [] else [(i, devLabel, kind)])"
  by (auto simp: preferDevice_def Let_def split: option.splits settled.splits track.splits)

lemma preferDevice_options_update:
  "preferDevice A kind track devId devLabel (s\<lparr> optionsObjects := f \<rparr>) =
     (fst (preferDevice A kind track devId devLabel s),
      (snd (preferDevice A kind track devId devLabel s))\<lparr> optionsObjects := f \<rparr>)"
  by (auto simp: preferDevice_def Let_def split: option.splits settled.splits track.splits)

lemma filter_calls_other_kind:
  "kind \<noteq> k \<Longrightarrow>
   filter (\<lambda>c. snd (snd c) = k) (resolverCalls (snd (preferDevice A kind track devId devLabel s)))
     = filter (\<lambda>c. snd (snd c) = k) (resolverCalls s)"
  by (auto simp: preferDevice_calls split: option.splits)

subsection \<open>Claims about \<^verbatim>\<open>getMediaConstraints\<close>\<close>

text \<open>
  \<^bold>\<open>C9.\<close> Where \<^verbatim>\<open>micId\<close> is supplied and the resolution of the device id rejects, the
  promise of \<^verbatim>\<open>getMediaConstraints\<close> fulfils, and \<^verbatim>\<open>audio\<close> of the result is the value the
  caller supplied, or \<^verbatim>\<open>true\<close> when none was; no constraint object is written to, the one
  returned as \<^verbatim>\<open>video\<close> apart. The same holds of \<^verbatim>\<open>camId\<close> and \<^verbatim>\<open>video\<close>, whose default is
  \<^verbatim>\<open>false\<close>.
\<close>

theorem getMediaConstraints_resolution_rejected:
  "(\<forall>m e. micId (optionsObjects s options) = Some m
        \<and> assureDeviceId m (case micLabel (optionsObjects s options) of None \<Rightarrow> [] | Some l \<Rightarrow> l) AudioIn
            = Rejected e
      \<longrightarrow> (\<exists>r s'. getMediaConstraints assureDeviceId s options = (Fulfilled r, s')
            \<and> MediaStreamConstraints.audio r
                = (case CallOptions.audio (optionsObjects s options) of None \<Rightarrow> TBool True | Some t \<Rightarrow> t)
            \<and> (\<forall>a. MediaStreamConstraints.video r \<noteq> TRef a \<longrightarrow>
                  trackConstraints s' a = trackConstraints s a)))
   \<and> (\<forall>m e. camId (optionsObjects s options) = Some m
        \<and> assureDeviceId m (case camLabel (optionsObjects s options) of None \<Rightarrow> [] | Some l \<Rightarrow> l) Video
            = Rejected e
      \<longrightarrow> (\<exists>r s'. getMediaConstraints assureDeviceId s options = (Fulfilled r, s')
            \<and> MediaStreamConstraints.video r
                = (case CallOptions.video (optionsObjects s options) of None \<Rightarrow> TBool False | Some t \<Rightarrow> t)
            \<and> (\<forall>a. MediaStreamConstraints.audio r \<noteq> TRef a \<longrightarrow>
                  trackConstraints s' a = trackConstraints s a)))"
proof (intro conjI allI impI)
  fix m e
  assume h: "micId (optionsObjects s options) = Some m
        \<and> assureDeviceId m (case micLabel (optionsObjects s options) of None \<Rightarrow> [] | Some l \<Rightarrow> l) AudioIn
            = Rejected e"
  let ?ta = "case CallOptions.audio (optionsObjects s options) of None \<Rightarrow> TBool True | Some t \<Rightarrow> t"
  let ?la = "case micLabel (optionsObjects s options) of None \<Rightarrow> [] | Some l \<Rightarrow> l"
  let ?tv = "case CallOptions.video (optionsObjects s options) of None \<Rightarrow> TBool False | Some t \<Rightarrow> t"
  let ?lv = "case camLabel (optionsObjects s options) of None \<Rightarrow> [] | Some l \<Rightarrow> l"
  let ?p1 = "preferDevice assureDeviceId AudioIn ?ta (micId (optionsObjects s options)) ?la s"
  let ?p2 = "preferDevice assureDeviceId Video ?tv (camId (optionsObjects s options)) ?lv (snd ?p1)"
  have p1: "fst ?p1 = ?ta \<and> trackConstraints (snd ?p1) = trackConstraints s"
  proof (cases "m = []")
    case True
    with h show ?thesis by (simp add: preferDevice_falsy)
  next
    case False
    with h show ?thesis by (simp add: preferDevice_rejected [where e = e])
  qed
  have w: "trackConstraints (snd ?p2) a = trackConstraints s a" if "fst ?p2 \<noteq> TRef a" for a
    using preferDevice_written [of assureDeviceId Video ?tv "camId (optionsObjects s options)" ?lv "snd ?p1" a]
      that p1
    by auto
  show "\<exists>r s'. getMediaConstraints assureDeviceId s options = (Fulfilled r, s')
            \<and> MediaStreamConstraints.audio r = ?ta
            \<and> (\<forall>a. MediaStreamConstraints.video r \<noteq> TRef a \<longrightarrow>
                  trackConstraints s' a = trackConstraints s a)"
    by (subst getMediaConstraints_eq) (simp add: p1 w)
next
  fix m e
  assume h: "camId (optionsObjects s options) = Some m
        \<and> assureDeviceId m (case camLabel (optionsObjects s options) of None \<Rightarrow> [] | Some l \<Rightarrow> l) Video
            = Rejected e"
  let ?ta = "case CallOptions.audio (optionsObjects s options) of None \<Rightarrow> TBool True | Some t \<Rightarrow> t"
  let ?la = "case micLabel (optionsObjects s options) of None \<Rightarrow> [] | Some l \<Rightarrow> l"
  let ?tv = "case CallOptions.video (optionsObjects s options) of None \<Rightarrow> TBool False | Some t \<Rightarrow> t"
  let ?lv = "case camLabel (optionsObjects s options) of None \<Rightarrow> [] | Some l \<Rightarrow> l"
  let ?p1 = "preferDevice assureDeviceId AudioIn ?ta (micId (optionsObjects s options)) ?la s"
  let ?p2 = "preferDevice assureDeviceId Video ?tv (camId (optionsObjects s options)) ?lv (snd ?p1)"
  have p2: "fst ?p2 = ?tv \<and> trackConstraints (snd ?p2) = trackConstraints (snd ?p1)"
  proof (cases "m = []")
    case True
    with h show ?thesis by (simp add: preferDevice_falsy)
  next
    case False
    with h show ?thesis by (simp add: preferDevice_rejected [where e = e])
  qed
  have w: "trackConstraints (snd ?p1) a = trackConstraints s a" if "fst ?p1 \<noteq> TRef a" for a
    using preferDevice_written [of assureDeviceId AudioIn ?ta "micId (optionsObjects s options)" ?la s a]
      that
    by auto
  show "\<exists>r s'. getMediaConstraints assureDeviceId s options = (Fulfilled r, s')
            \<and> MediaStreamConstraints.video r = ?tv
            \<and> (\<forall>a. MediaStreamConstraints.audio r \<noteq> TRef a \<longrightarrow>
                  trackConstraints s' a = trackConstraints s a)"
    by (subst getMediaConstraints_eq) (simp add: p2 w)
qed

text \<open>
  The options \<^verbatim>\<open>{ micId: "bad-id" }\<close> with a resolver that rejects every call: the
  result is \<^verbatim>\<open>{ audio: true, video: false }\<close>.
\<close>

theorem getMediaConstraints_resolution_rejected_witness:
  "fst (getMediaConstraints (\<lambda>i l k. Rejected DeviceResolutionFailure)
         \<lparr> optionsObjects = (\<lambda>a. \<lparr> CallOptions.audio = None, micId = Some ''bad-id'', micLabel = None,
                                   video = None, camId = None, camLabel = None \<rparr>),
           trackConstraints = (\<lambda>a. \<lparr> deviceId = None, others = [] \<rparr>),
           nextAddr = 1,
           resolverCalls = [] \<rparr> 0)
   = Fulfilled \<lparr> audio = TBool True, video = TBool False \<rparr>"
proof -
  let ?A = "(\<lambda>i l k. Rejected DeviceResolutionFailure) :: string \<Rightarrow> string \<Rightarrow> DeviceType \<Rightarrow> (error, string option) settled"
  let ?s = "\<lparr> optionsObjects = (\<lambda>a. \<lparr> CallOptions.audio = None, micId = Some ''bad-id'', micLabel = None,
                                   video = None, camId = None, camLabel = None \<rparr>),
           trackConstraints = (\<lambda>a. \<lparr> deviceId = None, others = [] \<rparr>),
           nextAddr = 1,
           resolverCalls = [] \<rparr>"
  have h: "micId (optionsObjects ?s 0) = Some ''bad-id''
        \<and> ?A ''bad-id'' (case micLabel (optionsObjects ?s 0) of None \<Rightarrow> [] | Some l \<Rightarrow> l) AudioIn
            = Rejected DeviceResolutionFailure"
    by simp
  from getMediaConstraints_resolution_rejected [of ?s 0 ?A, THEN conjunct1, rule_format, OF h]
  obtain r s' where r: "getMediaConstraints ?A ?s 0 = (Fulfilled r, s')"
    and a: "MediaStreamConstraints.audio r
              = (case CallOptions.audio (optionsObjects ?s 0) of None \<Rightarrow> TBool True | Some t \<Rightarrow> t)"
    by blast
  have v: "MediaStreamConstraints.video r = TBool False"
    using r by (auto simp add: getMediaConstraints_eq preferDevice_falsy)
  have "r = \<lparr> audio = TBool True, video = TBool False \<rparr>"
    using a v by (cases r) simp
  with r show ?thesis by simp
qed

text \<open>
  \<^bold>\<open>C10.\<close> Where \<^verbatim>\<open>micId\<close> is the empty string, \<^verbatim>\<open>getMediaConstraints\<close> makes no call to the
  resolver for an audio input and returns \<^verbatim>\<open>audio\<close> as supplied or defaulted: the result
  and the store it leaves are those of the call on the same options without \<^verbatim>\<open>micId\<close>.
  The same holds of \<^verbatim>\<open>camId\<close> and \<^verbatim>\<open>video\<close>.
\<close>

theorem getMediaConstraints_empty_id:
  "(micId (optionsObjects s options) = Some [] \<longrightarrow>
      (\<exists>r s'. getMediaConstraints assureDeviceId s options = (Fulfilled r, s')
         \<and> MediaStreamConstraints.audio r
             = (case CallOptions.audio (optionsObjects s options) of None \<Rightarrow> TBool True | Some t \<Rightarrow> t)
         \<and> filter (\<lambda>c. snd (snd c) = AudioIn) (resolverCalls s')
             = filter (\<lambda>c. snd (snd c) = AudioIn) (resolverCalls s)
         \<and> getMediaConstraints assureDeviceId
              (s\<lparr> optionsObjects :=
                   (optionsObjects s)(options := (optionsObjects s options)\<lparr> micId := None \<rparr>) \<rparr>)
              options
             = (Fulfilled r,
                s'\<lparr> optionsObjects :=
                   (optionsObjects s)(options := (optionsObjects s options)\<lparr> micId := None \<rparr>) \<rparr>)))
   \<and> (camId (optionsObjects s options) = Some [] \<longrightarrow>
      (\<exists>r s'. getMediaConstraints assureDeviceId s options = (Fulfilled r, s')
         \<and> MediaStreamConstraints.video r
             = (case CallOptions.video (optionsObjects s options) of None \<Rightarrow> TBool False | Some t \<Rightarrow> t)
         \<and> filter (\<lambda>c. snd (snd c) = Video) (resolverCalls s')
             = filter (\<lambda>c. snd (snd c) = Video) (resolverCalls s)
         \<and> getMediaConstraints assureDeviceId
              (s\<lparr> optionsObjects :=
                   (optionsObjects s)(options := (optionsObjects s options)\<lparr> camId := None \<rparr>) \<rparr>)
              options
             = (Fulfilled r,
                s'\<lparr> optionsObjects :=
                   (optionsObjects s)(options := (optionsObjects s options)\<lparr> camId := None \<rparr>) \<rparr>)))"
proof (intro conjI impI)
  assume h: "micId (optionsObjects s options) = Some []"
  let ?ta = "case CallOptions.audio (optionsObjects s options) of None \<Rightarrow> TBool True | Some t \<Rightarrow> t"
  let ?la = "case micLabel (optionsObjects s options) of None \<Rightarrow> [] | Some l \<Rightarrow> l"
  let ?tv = "case CallOptions.video (optionsObjects s options) of None \<Rightarrow> TBool False | Some t \<Rightarrow> t"
  let ?lv = "case camLabel (optionsObjects s options) of None \<Rightarrow> [] | Some l \<Rightarrow> l"
  let ?f = "(optionsObjects s)(options := (optionsObjects s options)\<lparr> micId := None \<rparr>)"
  let ?p2 = "preferDevice assureDeviceId Video ?tv (camId (optionsObjects s options)) ?lv s"
  have g: "getMediaConstraints assureDeviceId s options
             = (Fulfilled \<lparr> audio = ?ta, video = fst ?p2 \<rparr>, snd ?p2)"
    by (subst getMediaConstraints_eq) (simp add: h preferDevice_falsy)
  have g': "getMediaConstraints assureDeviceId (s\<lparr> optionsObjects := ?f \<rparr>) options
             = (Fulfilled \<lparr> audio = ?ta, video = fst ?p2 \<rparr>, (snd ?p2)\<lparr> optionsObjects := ?f \<rparr>)"
    by (subst getMediaConstraints_eq) (simp add: preferDevice_falsy preferDevice_options_update)
  have c: "filter (\<lambda>c. snd (snd c) = AudioIn) (resolverCalls (snd ?p2))
             = filter (\<lambda>c. snd (snd c) = AudioIn) (resolverCalls s)"
    by (rule filter_calls_other_kind) simp
  show "\<exists>r s'. getMediaConstraints assureDeviceId s options = (Fulfilled r, s')
         \<and> MediaStreamConstraints.audio r = ?ta
         \<and> filter (\<lambda>c. snd (snd c) = AudioIn) (resolverCalls s')
             = filter (\<lambda>c. snd (snd c) = AudioIn) (resolverCalls s)
         \<and> getMediaConstraints assureDeviceId (s\<lparr> optionsObjects := ?f \<rparr>) options
             = (Fulfilled r, s'\<lparr> optionsObjects := ?f \<rparr>)"
    unfolding g g' using c by simp
next
  assume h: "camId (optionsObjects s options) = Some []"
  let ?ta = "case CallOptions.audio (optionsObjects s options) of None \<Rightarrow> TBool True | Some t \<Rightarrow> t"
  let ?la = "case micLabel (optionsObjects s options) of None \<Rightarrow> [] | Some l \<Rightarrow> l"
  let ?tv = "case CallOptions.video (optionsObjects s options) of None \<Rightarrow> TBool False | Some t \<Rightarrow> t"
  let ?lv = "case camLabel (optionsObjects s options) of None \<Rightarrow> [] | Some l \<Rightarrow> l"
  let ?f = "(optionsObjects s)(options := (optionsObjects s options)\<lparr> camId := None \<rparr>)"
  let ?p1 = "preferDevice assureDeviceId AudioIn ?ta (micId (optionsObjects s options)) ?la s"
  have g: "getMediaConstraints assureDeviceId s options
             = (Fulfilled \<lparr> audio = fst ?p1, video = ?tv \<rparr>, snd ?p1)"
    by (subst getMediaConstraints_eq) (simp add: h preferDevice_falsy)
  have g': "getMediaConstraints assureDeviceId (s\<lparr> optionsObjects := ?f \<rparr>) options
             = (Fulfilled \<lparr> audio = fst ?p1, video = ?tv \<rparr>, (snd ?p1)\<lparr> optionsObjects := ?f \<rparr>)"
    by (subst getMediaConstraints_eq) (simp add: preferDevice_falsy preferDevice_options_update)
  have c: "filter (\<lambda>c. snd (snd c) = Video) (resolverCalls (snd ?p1))
             = filter (\<lambda>c. snd (snd c) = Video) (resolverCalls s)"
    by (rule filter_calls_other_kind) simp
  show "\<exists>r s'. getMediaConstraints assureDeviceId s options = (Fulfilled r, s')
         \<and> MediaStreamConstraints.video r = ?tv
         \<and> filter (\<lambda>c. snd (snd c) = Video) (resolverCalls s')
             = filter (\<lambda>c. snd (snd c) = Video) (resolverCalls s)
         \<and> getMediaConstraints assureDeviceId (s\<lparr> optionsObjects := ?f \<rparr>) options
             = (Fulfilled r, s'\<lparr> optionsObjects := ?f \<rparr>)"
    unfolding g g' using c by simp
qed

text \<open>
  An instance: \<^verbatim>\<open>micId\<close> is empty and \<^verbatim>\<open>camId\<close> is not, with a resolver that accepts every
  id. No call for an audio input is recorded.
\<close>

theorem getMediaConstraints_empty_id_witness:
  "\<exists>r s'. getMediaConstraints (\<lambda>i l k. Fulfilled (Some i) :: (error, string option) settled)
         \<lparr> optionsObjects = (\<lambda>a. \<lparr> CallOptions.audio = None, micId = Some [], micLabel = None,
                                   video = None, camId = Some ''cam-1'', camLabel = None \<rparr>),
           trackConstraints = (\<lambda>a. \<lparr> deviceId = None, others = [] \<rparr>),
           nextAddr = 1,
           resolverCalls = [] \<rparr> 0 = (Fulfilled r, s')
     \<and> MediaStreamConstraints.audio r = TBool True
     \<and> filter (\<lambda>c. snd (snd c) = AudioIn) (resolverCalls s') = []"
proof -
  let ?A = "(\<lambda>i l k. Fulfilled (Some i)) :: string \<Rightarrow> string \<Rightarrow> DeviceType \<Rightarrow> (error, string option) settled"
  let ?s = "\<lparr> optionsObjects = (\<lambda>a. \<lparr> CallOptions.audio = None, micId = Some [], micLabel = None,
                                   video = None, camId = Some ''cam-1'', camLabel = None \<rparr>),
           trackConstraints = (\<lambda>a. \<lparr> deviceId = None, others = [] \<rparr>),
           nextAddr = 1,
           resolverCalls = [] \<rparr>"
  have h: "micId (optionsObjects ?s 0) = Some []" by simp
  from getMediaConstraints_empty_id [of ?s 0 ?A, THEN conjunct1, rule_format, OF h]
  obtain r s' where "getMediaConstraints ?A ?s 0 = (Fulfilled r, s')"
    and "MediaStreamConstraints.audio r
           = (case CallOptions.audio (optionsObjects ?s 0) of None \<Rightarrow> TBool True | Some t \<Rightarrow> t)"
    and "filter (\<lambda>c. snd (snd c) = AudioIn) (resolverCalls s')
           = filter (\<lambda>c. snd (snd c) = AudioIn) (resolverCalls ?s)"
    by blast
  then have "getMediaConstraints ?A ?s 0 = (Fulfilled r, s')
     \<and> MediaStreamConstraints.audio r = TBool True
     \<and> filter (\<lambda>c. snd (snd c) = AudioIn) (resolverCalls s') = []"
    by simp
  then show ?thesis by blast
qed

section \<open>What the functions write and what their results share\<close>

subsection \<open>\<^verbatim>\<open>mutateCanvasInfoData\<close> on the store\<close>

lemma canvasLayouts_loop_st_props:
  assumes "layouts \<noteq> cl"
  shows "\<exists>ov' s'. canvasLayouts_loop_st rtf ts sc cl layouts i ov s = Some (ov', s')
     \<and> rawInfos s' = rawInfos s \<and> rawLayouts s' = rawLayouts s \<and> outInfos s' = outInfos s
     \<and> (\<forall>a. a \<noteq> layouts \<longrightarrow> arrays s' a = arrays s a)
     \<and> arrays s' layouts
         = arrays s layouts @ [canvasNextAddr s ..< canvasNextAddr s + (length (arrays s cl) - i)]
     \<and> canvasNextAddr s' = canvasNextAddr s + (length (arrays s cl) - i)
     \<and> (\<forall>a < canvasNextAddr s. outLayouts s' a = outLayouts s a)
     \<and> (\<forall>j < length (arrays s cl) - i.
           outLayouts s' (canvasNextAddr s + j)
             = layout_entry rtf ts sc (rawLayouts s (arrays s cl ! (i + j))))
     \<and> (ov' \<longleftrightarrow> ov \<or> (\<exists>j < length (arrays s cl) - i.
           strict_equals (IVertoCanvasLayout.overlap (rawLayouts s (arrays s cl ! (i + j))))
             (JNumber (Fin 1))))"
proof (induction k \<equiv> "length (arrays s cl) - i" arbitrary: i ov s)
  case 0
  then have "\<not> i < length (arrays s cl)" by simp
  then have "canvasLayouts_loop_st rtf ts sc cl layouts i ov s = Some (ov, s)"
    by (subst canvasLayouts_loop_st.simps) simp
  with 0 [symmetric] show ?case by simp
next
  case (Suc k)
  let ?n = "canvasNextAddr s"
  let ?l = "rawLayouts s (arrays s cl ! i)"
  let ?e = "layout_entry rtf ts sc ?l"
  let ?s1 = "push_new_layout layouts ?e s"
  let ?ov1 = "ov \<or> strict_equals (IVertoCanvasLayout.overlap ?l) (JNumber (Fin 1))"
  from Suc.hyps(2) have i: "i < length (arrays s cl)" by simp
  have len: "length (arrays s cl) - i = Suc k" using Suc.hyps(2) by simp
  have a1: "arrays ?s1 cl = arrays s cl"
    and rl1: "rawLayouts ?s1 = rawLayouts s"
    and ri1: "rawInfos ?s1 = rawInfos s"
    and oi1: "outInfos ?s1 = outInfos s"
    and n1: "canvasNextAddr ?s1 = Suc ?n"
    and al1: "arrays ?s1 layouts = arrays s layouts @ [?n]"
    and ol1: "outLayouts ?s1 = (outLayouts s)(?n := ?e)"
    using assms by (simp_all add: push_new_layout_def)
  have ao1: "arrays ?s1 a = arrays s a" if "a \<noteq> layouts" for a
    using that by (simp add: push_new_layout_def)
  have k: "k = length (arrays ?s1 cl) - Suc i" using len a1 by simp
  from Suc.hyps(1) [OF k, of ?ov1]
  obtain ov' s' where r: "canvasLayouts_loop_st rtf ts sc cl layouts (Suc i) ?ov1 ?s1 = Some (ov', s')"
    and ri: "rawInfos s' = rawInfos ?s1" and rl: "rawLayouts s' = rawLayouts ?s1"
    and oi: "outInfos s' = outInfos ?s1"
    and ao: "\<forall>a. a \<noteq> layouts \<longrightarrow> arrays s' a = arrays ?s1 a"
    and al: "arrays s' layouts
         = arrays ?s1 layouts @ [canvasNextAddr ?s1 ..< canvasNextAddr ?s1 + (length (arrays ?s1 cl) - Suc i)]"
    and nx: "canvasNextAddr s' = canvasNextAddr ?s1 + (length (arrays ?s1 cl) - Suc i)"
    and ol: "\<forall>a < canvasNextAddr ?s1. outLayouts s' a = outLayouts ?s1 a"
    and oe: "\<forall>j < length (arrays ?s1 cl) - Suc i.
           outLayouts s' (canvasNextAddr ?s1 + j)
             = layout_entry rtf ts sc (rawLayouts ?s1 (arrays ?s1 cl ! (Suc i + j)))"
    and ov: "ov' \<longleftrightarrow> ?ov1 \<or> (\<exists>j < length (arrays ?s1 cl) - Suc i.
           strict_equals (IVertoCanvasLayout.overlap (rawLayouts ?s1 (arrays ?s1 cl ! (Suc i + j))))
             (JNumber (Fin 1)))"
    by blast
  have u: "canvasLayouts_loop_st rtf ts sc cl layouts i ov s = Some (ov', s')"
    by (subst canvasLayouts_loop_st.simps) (simp add: i r)
  have c1: "rawInfos s' = rawInfos s" "rawLayouts s' = rawLayouts s" "outInfos s' = outInfos s"
    using ri rl oi ri1 rl1 oi1 by simp_all
  have c2: "\<forall>a. a \<noteq> layouts \<longrightarrow> arrays s' a = arrays s a"
    using ao ao1 by simp
  have e: "length (arrays ?s1 cl) - Suc i = k" using k by simp
  have "arrays s' layouts = (arrays s layouts @ [?n]) @ [Suc ?n ..< Suc ?n + k]"
    using al unfolding e n1 al1 .
  moreover have "[?n ..< ?n + Suc k] = ?n # [Suc ?n ..< Suc ?n + k]"
    by (simp add: upt_conv_Cons del: upt_Suc)
  ultimately have c3: "arrays s' layouts = arrays s layouts @ [?n ..< ?n + (length (arrays s cl) - i)]"
    unfolding len by (simp del: upt_Suc)
  have c4: "canvasNextAddr s' = ?n + (length (arrays s cl) - i)"
    using nx unfolding e n1 len by simp
  have c5: "\<forall>a < ?n. outLayouts s' a = outLayouts s a"
    using ol by (simp add: n1 ol1)
  have c6: "outLayouts s' (?n + j) = layout_entry rtf ts sc (rawLayouts s (arrays s cl ! (i + j)))"
    if "j < length (arrays s cl) - i" for j
  proof (cases j)
    case 0
    have "outLayouts s' ?n = outLayouts ?s1 ?n" using ol by (simp add: n1)
    with 0 show ?thesis by (simp add: ol1)
  next
    case (Suc j')
    with that have "j' < length (arrays ?s1 cl) - Suc i" by (simp add: a1)
    with oe have "outLayouts s' (canvasNextAddr ?s1 + j')
             = layout_entry rtf ts sc (rawLayouts ?s1 (arrays ?s1 cl ! (Suc i + j')))"
      by blast
    with Suc show ?thesis by (simp add: n1 rl1 a1)
  qed
  have c7: "ov' \<longleftrightarrow> ov \<or> (\<exists>j < length (arrays s cl) - i.
           strict_equals (IVertoCanvasLayout.overlap (rawLayouts s (arrays s cl ! (i + j))))
             (JNumber (Fin 1)))"
  proof -
    have "(\<exists>j < Suc k. strict_equals (IVertoCanvasLayout.overlap (rawLayouts s (arrays s cl ! (i + j))))
             (JNumber (Fin 1)))
        \<longleftrightarrow> strict_equals (IVertoCanvasLayout.overlap ?l) (JNumber (Fin 1))
          \<or> (\<exists>j < k. strict_equals (IVertoCanvasLayout.overlap (rawLayouts s (arrays s cl ! (Suc i + j))))
             (JNumber (Fin 1)))"
      by (simp add: Ex_less_Suc2 del: ex_simps)
    moreover have "length (arrays s cl) - Suc i = k" using e a1 by simp
    ultimately show ?thesis
      using ov unfolding rl1 a1 len by simp
  qed
  from u c1 c2 c3 c4 c5 c6 c7 show ?case by blast
qed

lemma mutateCanvasInfoData_value:
  "mutateCanvasInfoData rtf ts c =
     \<lparr> canvasId = canvasID c,
       layoutFloorId = layoutFloorID c,
       scale = IVertoCanvasInfo.scale c,
       canvasLayouts = map (layout_entry rtf ts (IVertoCanvasInfo.scale c)) (IVertoCanvasInfo.canvasLayouts c),
       layoutOverlap = (\<exists>l \<in> set (IVertoCanvasInfo.canvasLayouts c).
          strict_equals (IVertoCanvasLayout.overlap l) (JNumber (Fin 1))),
       \<dots> = IVertoCanvasInfo.more c \<rparr>"
  by (simp add: mutateCanvasInfoData_def canvasLayouts_loop_eq)

lemma ex_nth_set: "(\<exists>j < length xs. P (xs ! j)) \<longleftrightarrow> (\<exists>a \<in> set xs. P a)"
  by (metis in_set_conv_nth)

lemma map_upt_shift:
  assumes "\<And>j. j < length xs \<Longrightarrow> f (n + j) = g (xs ! j)"
  shows "map f [n ..< n + length xs] = map g xs"
  using assms by (intro nth_equalityI) simp_all

lemma mutateCanvasInfoData_st_props:
  assumes cl: "IVertoCanvasInfo.canvasLayouts (rawInfos s canvasInfo) < canvasNextAddr s"
  shows "\<exists>r s'. mutateCanvasInfoData_st rtf ts s canvasInfo = Some (r, s')
     \<and> rawInfos s' = rawInfos s \<and> rawLayouts s' = rawLayouts s
     \<and> (\<forall>a < canvasNextAddr s.
           arrays s' a = arrays s a \<and> outLayouts s' a = outLayouts s a \<and> outInfos s' a = outInfos s a)
     \<and> canvasNextAddr s \<le> r
     \<and> canvasNextAddr s \<le> ICanvasInfo.canvasLayouts (outInfos s' r)
     \<and> (\<forall>e \<in> set (arrays s' (ICanvasInfo.canvasLayouts (outInfos s' r))). canvasNextAddr s \<le> e)
     \<and> canvas_value s' r = mutateCanvasInfoData rtf ts (raw_canvas_value s canvasInfo)"
proof -
  let ?n = "canvasNextAddr s"
  let ?info = "rawInfos s canvasInfo"
  let ?cl = "IVertoCanvasInfo.canvasLayouts ?info"
  let ?sc = "IVertoCanvasInfo.scale ?info"
  let ?s1 = "s\<lparr> arrays := (arrays s)(?n := []), canvasNextAddr := Suc ?n \<rparr>"
  let ?len = "length (arrays s ?cl)"
  from cl have ne: "?n \<noteq> ?cl" by simp
  have a1: "arrays ?s1 ?cl = arrays s ?cl" using ne by simp
  from canvasLayouts_loop_st_props [OF ne, of rtf ts ?sc 0 False ?s1]
  obtain ov' s2 where r: "canvasLayouts_loop_st rtf ts ?sc ?cl ?n 0 False ?s1 = Some (ov', s2)"
    and ri: "rawInfos s2 = rawInfos ?s1" and rl: "rawLayouts s2 = rawLayouts ?s1"
    and oi: "outInfos s2 = outInfos ?s1"
    and ao: "\<forall>a. a \<noteq> ?n \<longrightarrow> arrays s2 a = arrays ?s1 a"
    and al: "arrays s2 ?n
         = arrays ?s1 ?n @ [canvasNextAddr ?s1 ..< canvasNextAddr ?s1 + (length (arrays ?s1 ?cl) - 0)]"
    and nx: "canvasNextAddr s2 = canvasNextAddr ?s1 + (length (arrays ?s1 ?cl) - 0)"
    and ol: "\<forall>a < canvasNextAddr ?s1. outLayouts s2 a = outLayouts ?s1 a"
    and oe: "\<forall>j < length (arrays ?s1 ?cl) - 0.
           outLayouts s2 (canvasNextAddr ?s1 + j)
             = layout_entry rtf ts ?sc (rawLayouts ?s1 (arrays ?s1 ?cl ! (0 + j)))"
    and ov: "ov' \<longleftrightarrow> False \<or> (\<exists>j < length (arrays ?s1 ?cl) - 0.
           strict_equals (IVertoCanvasLayout.overlap (rawLayouts ?s1 (arrays ?s1 ?cl ! (0 + j))))
             (JNumber (Fin 1)))"
    by blast
  let ?r = "canvasNextAddr s2"
  let ?out = "\<lparr> canvasId = canvasID ?info, layoutFloorId = layoutFloorID ?info,
                 scale = ?sc, canvasLayouts = ?n, layoutOverlap = ov',
                 \<dots> = IVertoCanvasInfo.more ?info \<rparr>"
  let ?s' = "s2\<lparr> outInfos := (outInfos s2)(?r := ?out), canvasNextAddr := Suc ?r \<rparr>"
  have res: "mutateCanvasInfoData_st rtf ts s canvasInfo = Some (?r, ?s')"
    by (simp add: mutateCanvasInfoData_st_def Let_def r)
  have rn: "?r = Suc ?n + ?len" using nx unfolding a1 by simp
  have al': "arrays s2 ?n = [Suc ?n ..< Suc ?n + ?len]" using al unfolding a1 by simp
  have f1: "rawInfos ?s' = rawInfos s" "rawLayouts ?s' = rawLayouts s"
    using ri rl by simp_all
  have f2: "\<forall>a < ?n. arrays ?s' a = arrays s a \<and> outLayouts ?s' a = outLayouts s a
      \<and> outInfos ?s' a = outInfos s a"
    using ao ol oi rn by simp
  have f3: "?n \<le> ?r" using rn by simp
  have f4: "ICanvasInfo.canvasLayouts (outInfos ?s' ?r) = ?n" by simp
  have f5: "\<forall>e \<in> set (arrays ?s' (ICanvasInfo.canvasLayouts (outInfos ?s' ?r))). ?n \<le> e"
    by (simp add: al' del: upt_Suc)
  have m: "map (outLayouts s2) [Suc ?n ..< Suc ?n + ?len]
             = map (\<lambda>a. layout_entry rtf ts ?sc (rawLayouts s a)) (arrays s ?cl)"
    by (rule map_upt_shift) (use oe [unfolded a1] in simp)
  have o: "ov' \<longleftrightarrow> (\<exists>a \<in> set (arrays s ?cl).
       strict_equals (IVertoCanvasLayout.overlap (rawLayouts s a)) (JNumber (Fin 1)))"
    using ov unfolding a1 by (simp add: ex_nth_set [of _ "\<lambda>a. strict_equals (IVertoCanvasLayout.overlap (rawLayouts s a)) (JNumber (Fin 1))"])
  have lay: "map (outLayouts ?s') (arrays ?s' (ICanvasInfo.canvasLayouts (outInfos ?s' ?r)))
             = map (\<lambda>a. layout_entry rtf ts ?sc (rawLayouts s a)) (arrays s ?cl)"
  proof -
    have "outLayouts ?s' = outLayouts s2" and "arrays ?s' = arrays s2" by simp_all
    then show ?thesis unfolding f4 by (simp only: al' m)
  qed
  have f6: "canvas_value ?s' ?r = mutateCanvasInfoData rtf ts (raw_canvas_value s canvasInfo)"
    unfolding canvas_value_def lay
    by (simp add: raw_canvas_value_def mutateCanvasInfoData_value o comp_def)
  have f4': "?n \<le> ICanvasInfo.canvasLayouts (outInfos ?s' ?r)" by simp
  show ?thesis
    by (intro exI [of _ ?r] exI [of _ ?s'] conjI) (fact res f1 f2 f3 f4' f5 f6)+
qed

lemma raw_canvas_value_frame:
  assumes "IVertoCanvasInfo.canvasLayouts (rawInfos s canvasInfo) < canvasNextAddr s"
    and "rawInfos s' = rawInfos s" and "rawLayouts s' = rawLayouts s"
    and "\<forall>a < canvasNextAddr s. arrays s' a = arrays s a"
  shows "raw_canvas_value s' canvasInfo = raw_canvas_value s canvasInfo"
  using assms by (simp add: raw_canvas_value_def)

subsection \<open>\<^verbatim>\<open>getMediaConstraints\<close> on the store\<close>

lemma preferDevice_others:
  "a \<noteq> nextAddr s \<Longrightarrow>
   others (trackConstraints (snd (preferDevice A kind track devId devLabel s)) a)
     = others (trackConstraints s a)"
  by (auto simp: preferDevice_def Let_def split: option.splits settled.splits track.splits)

lemma preferDevice_frame:
  "a \<noteq> nextAddr s \<Longrightarrow>
   trackConstraints (snd (preferDevice A kind track devId devLabel s)) a \<noteq> trackConstraints s a \<Longrightarrow>
   track = TRef a \<and> (\<exists>i j. devId = Some i \<and> i \<noteq> [] \<and> A i devLabel kind = Fulfilled (Some j) \<and> j \<noteq> [])"
  by (auto simp: preferDevice_def Let_def split: option.splits settled.splits track.splits if_splits)

lemma preferDevice_exact:
  "track = TRef a \<Longrightarrow> devId = Some i \<Longrightarrow> i \<noteq> [] \<Longrightarrow> A i devLabel kind = Fulfilled (Some j) \<Longrightarrow>
   j \<noteq> [] \<Longrightarrow>
   deviceId (trackConstraints (snd (preferDevice A kind track devId devLabel s)) a) = Some (Exact j)"
  by (simp add: preferDevice_def)

lemma preferDevice_keeps_exact:
  "deviceId (trackConstraints s a) = Some (Exact k) \<Longrightarrow>
   \<exists>k'. deviceId (trackConstraints (snd (preferDevice A kind track devId devLabel s)) a) = Some (Exact k')"
  by (auto simp: preferDevice_def Let_def split: option.splits settled.splits track.splits)

lemma preferDevice_ref:
  "track = TRef a \<Longrightarrow> fst (preferDevice A kind track devId devLabel s) = TRef a"
  by (auto simp: preferDevice_def Let_def split: option.splits settled.splits track.splits)

lemma preferDevice_ref_origin:
  "fst (preferDevice A kind track devId devLabel s) = TRef a \<Longrightarrow>
   track = TRef a
   \<or> (a = nextAddr s \<and> nextAddr (snd (preferDevice A kind track devId devLabel s)) = Suc (nextAddr s))"
  by (auto simp: preferDevice_def Let_def split: option.splits settled.splits track.splits if_splits)

lemma preferDevice_nextAddr:
  "nextAddr s \<le> nextAddr (snd (preferDevice A kind track devId devLabel s))"
  by (auto simp: preferDevice_def Let_def split: option.splits settled.splits track.splits)

lemma default_ref: "(case t of None \<Rightarrow> TBool b | Some v \<Rightarrow> v) = TRef a \<longleftrightarrow> t = Some (TRef a)"
  by (cases t) auto

lemma getMediaConstraints_frame:
  "\<exists>r s'. getMediaConstraints A s options = (Fulfilled r, s')
     \<and> optionsObjects s' = optionsObjects s
     \<and> (\<forall>a < nextAddr s. others (trackConstraints s' a) = others (trackConstraints s a))
     \<and> (\<forall>a < nextAddr s. trackConstraints s' a \<noteq> trackConstraints s a \<longrightarrow>
           (CallOptions.audio (optionsObjects s options) = Some (TRef a)
              \<and> (\<exists>m j. micId (optionsObjects s options) = Some m \<and> m \<noteq> []
                    \<and> A m (case micLabel (optionsObjects s options) of None \<Rightarrow> [] | Some l \<Rightarrow> l) AudioIn
                        = Fulfilled (Some j) \<and> j \<noteq> []))
         \<or> (CallOptions.video (optionsObjects s options) = Some (TRef a)
              \<and> (\<exists>m j. camId (optionsObjects s options) = Some m \<and> m \<noteq> []
                    \<and> A m (case camLabel (optionsObjects s options) of None \<Rightarrow> [] | Some l \<Rightarrow> l) Video
                        = Fulfilled (Some j) \<and> j \<noteq> [])))
     \<and> (\<forall>a m j. CallOptions.audio (optionsObjects s options) = Some (TRef a)
            \<and> micId (optionsObjects s options) = Some m \<and> m \<noteq> []
            \<and> A m (case micLabel (optionsObjects s options) of None \<Rightarrow> [] | Some l \<Rightarrow> l) AudioIn
                = Fulfilled (Some j) \<and> j \<noteq> []
          \<longrightarrow> (\<exists>k. deviceId (trackConstraints s' a) = Some (Exact k)))
     \<and> (\<forall>a m j. CallOptions.video (optionsObjects s options) = Some (TRef a)
            \<and> camId (optionsObjects s options) = Some m \<and> m \<noteq> []
            \<and> A m (case camLabel (optionsObjects s options) of None \<Rightarrow> [] | Some l \<Rightarrow> l) Video
                = Fulfilled (Some j) \<and> j \<noteq> []
          \<longrightarrow> deviceId (trackConstraints s' a) = Some (Exact j))
     \<and> (\<forall>a. CallOptions.audio (optionsObjects s options) = Some (TRef a) \<longrightarrow>
            MediaStreamConstraints.audio r = TRef a)
     \<and> (\<forall>a. CallOptions.video (optionsObjects s options) = Some (TRef a) \<longrightarrow>
            MediaStreamConstraints.video r = TRef a)
     \<and> (\<forall>a. MediaStreamConstraints.audio r = TRef a \<longrightarrow>
            CallOptions.audio (optionsObjects s options) = Some (TRef a)
            \<or> (nextAddr s \<le> a \<and> a < nextAddr s'))
     \<and> (\<forall>a. MediaStreamConstraints.video r = TRef a \<longrightarrow>
            CallOptions.video (optionsObjects s options) = Some (TRef a)
            \<or> (nextAddr s \<le> a \<and> a < nextAddr s'))"
proof -
  let ?o = "optionsObjects s options"
  let ?ta = "case CallOptions.audio ?o of None \<Rightarrow> TBool True | Some t \<Rightarrow> t"
  let ?la = "case micLabel ?o of None \<Rightarrow> [] | Some l \<Rightarrow> l"
  let ?tv = "case CallOptions.video ?o of None \<Rightarrow> TBool False | Some t \<Rightarrow> t"
  let ?lv = "case camLabel ?o of None \<Rightarrow> [] | Some l \<Rightarrow> l"
  let ?p1 = "preferDevice A AudioIn ?ta (micId ?o) ?la s"
  let ?s1 = "snd ?p1"
  let ?p2 = "preferDevice A Video ?tv (camId ?o) ?lv ?s1"
  let ?r = "\<lparr> audio = fst ?p1, video = fst ?p2 \<rparr>"
  let ?s' = "snd ?p2"
  have g: "getMediaConstraints A s options = (Fulfilled ?r, ?s')"
    by (rule getMediaConstraints_eq)
  have n1: "nextAddr s \<le> nextAddr ?s1" and n2: "nextAddr ?s1 \<le> nextAddr ?s'"
    by (rule preferDevice_nextAddr)+
  have c1: "optionsObjects ?s' = optionsObjects s"
    by (simp add: preferDevice_options)
  have c2: "\<forall>a < nextAddr s. others (trackConstraints ?s' a) = others (trackConstraints s a)"
  proof (intro allI impI)
    fix a assume "a < nextAddr s"
    with n1 have "a \<noteq> nextAddr s" "a \<noteq> nextAddr ?s1" by simp_all
    then show "others (trackConstraints ?s' a) = others (trackConstraints s a)"
      by (simp add: preferDevice_others)
  qed
  have c3: "\<forall>a < nextAddr s. trackConstraints ?s' a \<noteq> trackConstraints s a \<longrightarrow>
           (CallOptions.audio ?o = Some (TRef a)
              \<and> (\<exists>m j. micId ?o = Some m \<and> m \<noteq> [] \<and> A m ?la AudioIn = Fulfilled (Some j) \<and> j \<noteq> []))
         \<or> (CallOptions.video ?o = Some (TRef a)
              \<and> (\<exists>m j. camId ?o = Some m \<and> m \<noteq> [] \<and> A m ?lv Video = Fulfilled (Some j) \<and> j \<noteq> []))"
  proof (intro allI impI)
    fix a assume a: "a < nextAddr s" and d: "trackConstraints ?s' a \<noteq> trackConstraints s a"
    from a n1 have ne: "a \<noteq> nextAddr s" "a \<noteq> nextAddr ?s1" by simp_all
    from d consider "trackConstraints ?s1 a \<noteq> trackConstraints s a"
      | "trackConstraints ?s' a \<noteq> trackConstraints ?s1 a" by metis
    then show "(CallOptions.audio ?o = Some (TRef a)
              \<and> (\<exists>m j. micId ?o = Some m \<and> m \<noteq> [] \<and> A m ?la AudioIn = Fulfilled (Some j) \<and> j \<noteq> []))
         \<or> (CallOptions.video ?o = Some (TRef a)
              \<and> (\<exists>m j. camId ?o = Some m \<and> m \<noteq> [] \<and> A m ?lv Video = Fulfilled (Some j) \<and> j \<noteq> []))"
    proof cases
      case 1
      from preferDevice_frame [OF ne(1) 1] show ?thesis by (simp add: default_ref)
    next
      case 2
      from preferDevice_frame [OF ne(2) 2] show ?thesis by (simp add: default_ref)
    qed
  qed
  have c4: "\<forall>a m j. CallOptions.audio ?o = Some (TRef a) \<and> micId ?o = Some m \<and> m \<noteq> []
            \<and> A m ?la AudioIn = Fulfilled (Some j) \<and> j \<noteq> []
          \<longrightarrow> (\<exists>k. deviceId (trackConstraints ?s' a) = Some (Exact k))"
  proof (intro allI impI)
    fix a m j
    assume h: "CallOptions.audio ?o = Some (TRef a) \<and> micId ?o = Some m \<and> m \<noteq> []
            \<and> A m ?la AudioIn = Fulfilled (Some j) \<and> j \<noteq> []"
    then have "deviceId (trackConstraints ?s1 a) = Some (Exact j)"
      by (intro preferDevice_exact [where i = m]) simp_all
    then show "\<exists>k. deviceId (trackConstraints ?s' a) = Some (Exact k)"
      by (rule preferDevice_keeps_exact)
  qed
  have c5: "\<forall>a m j. CallOptions.video ?o = Some (TRef a) \<and> camId ?o = Some m \<and> m \<noteq> []
            \<and> A m ?lv Video = Fulfilled (Some j) \<and> j \<noteq> []
          \<longrightarrow> deviceId (trackConstraints ?s' a) = Some (Exact j)"
  proof (intro allI impI)
    fix a m j
    assume h: "CallOptions.video ?o = Some (TRef a) \<and> camId ?o = Some m \<and> m \<noteq> []
            \<and> A m ?lv Video = Fulfilled (Some j) \<and> j \<noteq> []"
    then show "deviceId (trackConstraints ?s' a) = Some (Exact j)"
      by (intro preferDevice_exact [where i = m]) simp_all
  qed
  have c6: "\<forall>a. CallOptions.audio ?o = Some (TRef a) \<longrightarrow> MediaStreamConstraints.audio ?r = TRef a"
    by (simp add: preferDevice_ref)
  have c7: "\<forall>a. CallOptions.video ?o = Some (TRef a) \<longrightarrow> MediaStreamConstraints.video ?r = TRef a"
    by (simp add: preferDevice_ref)
  have c8: "\<forall>a. MediaStreamConstraints.audio ?r = TRef a \<longrightarrow>
            CallOptions.audio ?o = Some (TRef a) \<or> (nextAddr s \<le> a \<and> a < nextAddr ?s')"
  proof (intro allI impI)
    fix a assume "MediaStreamConstraints.audio ?r = TRef a"
    then have "fst ?p1 = TRef a" by simp
    from preferDevice_ref_origin [OF this] n2
    show "CallOptions.audio ?o = Some (TRef a) \<or> (nextAddr s \<le> a \<and> a < nextAddr ?s')"
      by (auto simp: default_ref)
  qed
  have c9: "\<forall>a. MediaStreamConstraints.video ?r = TRef a \<longrightarrow>
            CallOptions.video ?o = Some (TRef a) \<or> (nextAddr s \<le> a \<and> a < nextAddr ?s')"
  proof (intro allI impI)
    fix a assume "MediaStreamConstraints.video ?r = TRef a"
    then have "fst ?p2 = TRef a" by simp
    from preferDevice_ref_origin [OF this] n1
    show "CallOptions.video ?o = Some (TRef a) \<or> (nextAddr s \<le> a \<and> a < nextAddr ?s')"
      by (auto simp: default_ref)
  qed
  show ?thesis
    by (intro exI [of _ ?r] exI [of _ ?s'] conjI) (fact g c1 c2 c3 c4 c5 c6 c7 c8 c9)+
qed

subsection \<open>The claim about inputs and results\<close>

text \<open>
  \<^bold>\<open>C4\<close>, as stated, fails for \<^verbatim>\<open>getMediaConstraints\<close>. The caller supplies \<^verbatim>\<open>audio\<close> as a
  constraint object, at address 1, and a \<^verbatim>\<open>micId\<close> that resolves: after the call the
  caller's object holds a \<^verbatim>\<open>deviceId\<close> it did not hold, and \<^verbatim>\<open>audio\<close> of the result is that
  same object.
\<close>

theorem getMediaConstraints_writes_audio_object:
  "trackConstraints
     (snd (getMediaConstraints (\<lambda>i l k. Fulfilled (Some i) :: (error, string option) settled)
        \<lparr> optionsObjects = (\<lambda>a. \<lparr> CallOptions.audio = Some (TRef 1), micId = Some ''mic-1'',
                                  micLabel = None, video = None, camId = None, camLabel = None \<rparr>),
          trackConstraints = (\<lambda>a. \<lparr> deviceId = None, others = [(''echoCancellation'', JBool True)] \<rparr>),
          nextAddr = 2,
          resolverCalls = [] \<rparr> 0)) 1
   \<noteq> \<lparr> deviceId = None, others = [(''echoCancellation'', JBool True)] \<rparr>
   \<and> fst (getMediaConstraints (\<lambda>i l k. Fulfilled (Some i) :: (error, string option) settled)
        \<lparr> optionsObjects = (\<lambda>a. \<lparr> CallOptions.audio = Some (TRef 1), micId = Some ''mic-1'',
                                  micLabel = None, video = None, camId = None, camLabel = None \<rparr>),
          trackConstraints = (\<lambda>a. \<lparr> deviceId = None, others = [(''echoCancellation'', JBool True)] \<rparr>),
          nextAddr = 2,
          resolverCalls = [] \<rparr> 0)
     = Fulfilled \<lparr> audio = TRef 1, video = TBool False \<rparr>"
  by (simp add: getMediaConstraints_eq preferDevice_def)

text \<open>
  \<^bold>\<open>C4\<close>, amended. \<^verbatim>\<open>mutateCanvasInfoData\<close>, called on an allocated canvas, returns and
  writes to no object that existed before the call: the raw canvas, its array and its
  layouts are unchanged, and the object returned, its array and the elements of that
  array are new; read as a value, the result is the result of the function on values.
  \<^verbatim>\<open>getMediaConstraints\<close> never writes to the options object and never changes a
  property of a constraint object other than \<^verbatim>\<open>deviceId\<close>. It writes \<^verbatim>\<open>deviceId\<close> into a
  constraint object of the caller only where the caller supplied that object as \<^verbatim>\<open>audio\<close>
  (as \<^verbatim>\<open>video\<close>) and \<^verbatim>\<open>micId\<close> (\<^verbatim>\<open>camId\<close>) is non-empty and resolves to a non-empty id, and
  there it does write \<^verbatim>\<open>{ exact: id }\<close>. An object the caller supplied as \<^verbatim>\<open>audio\<close> or
  \<^verbatim>\<open>video\<close> is returned itself, not a copy; any other object in the result is new.
\<close>

theorem inputs_and_results:
  "(IVertoCanvasInfo.canvasLayouts (rawInfos cs canvasInfo) < canvasNextAddr cs \<longrightarrow>
      (\<exists>r cs'. mutateCanvasInfoData_st roundToFixed toString cs canvasInfo = Some (r, cs')
         \<and> rawInfos cs' = rawInfos cs \<and> rawLayouts cs' = rawLayouts cs
         \<and> (\<forall>a < canvasNextAddr cs.
               arrays cs' a = arrays cs a \<and> outLayouts cs' a = outLayouts cs a
               \<and> outInfos cs' a = outInfos cs a)
         \<and> raw_canvas_value cs' canvasInfo = raw_canvas_value cs canvasInfo
         \<and> canvasNextAddr cs \<le> r
         \<and> canvasNextAddr cs \<le> ICanvasInfo.canvasLayouts (outInfos cs' r)
         \<and> (\<forall>e \<in> set (arrays cs' (ICanvasInfo.canvasLayouts (outInfos cs' r))). canvasNextAddr cs \<le> e)
         \<and> canvas_value cs' r
             = mutateCanvasInfoData roundToFixed toString (raw_canvas_value cs canvasInfo)))
   \<and> (\<exists>r s'. getMediaConstraints assureDeviceId s options = (Fulfilled r, s')
     \<and> optionsObjects s' = optionsObjects s
     \<and> (\<forall>a < nextAddr s. others (trackConstraints s' a) = others (trackConstraints s a))
     \<and> (\<forall>a < nextAddr s. trackConstraints s' a \<noteq> trackConstraints s a \<longrightarrow>
           (CallOptions.audio (optionsObjects s options) = Some (TRef a)
              \<and> (\<exists>m j. micId (optionsObjects s options) = Some m \<and> m \<noteq> []
                    \<and> assureDeviceId m
                         (case micLabel (optionsObjects s options) of None \<Rightarrow> [] | Some l \<Rightarrow> l) AudioIn
                        = Fulfilled (Some j) \<and> j \<noteq> []))
         \<or> (CallOptions.video (optionsObjects s options) = Some (TRef a)
              \<and> (\<exists>m j. camId (optionsObjects s options) = Some m \<and> m \<noteq> []
                    \<and> assureDeviceId m
                         (case camLabel (optionsObjects s options) of None \<Rightarrow> [] | Some l \<Rightarrow> l) Video
                        = Fulfilled (Some j) \<and> j \<noteq> [])))
     \<and> (\<forall>a m j. CallOptions.audio (optionsObjects s options) = Some (TRef a)
            \<and> micId (optionsObjects s options) = Some m \<and> m \<noteq> []
            \<and> assureDeviceId m
                 (case micLabel (optionsObjects s options) of None \<Rightarrow> [] | Some l \<Rightarrow> l) AudioIn
                = Fulfilled (Some j) \<and> j \<noteq> []
          \<longrightarrow> (\<exists>k. deviceId (trackConstraints s' a) = Some (Exact k)))
     \<and> (\<forall>a m j. CallOptions.video (optionsObjects s options) = Some (TRef a)
            \<and> camId (optionsObjects s options) = Some m \<and> m \<noteq> []
            \<and> assureDeviceId m
                 (case camLabel (optionsObjects s options) of None \<Rightarrow> [] | Some l \<Rightarrow> l) Video
                = Fulfilled (Some j) \<and> j \<noteq> []
          \<longrightarrow> deviceId (trackConstraints s' a) = Some (Exact j))
     \<and> (\<forall>a. CallOptions.audio (optionsObjects s options) = Some (TRef a) \<longrightarrow>
            MediaStreamConstraints.audio r = TRef a)
     \<and> (\<forall>a. CallOptions.video (optionsObjects s options) = Some (TRef a) \<longrightarrow>
            MediaStreamConstraints.video r = TRef a)
     \<and> (\<forall>a. MediaStreamConstraints.audio r = TRef a \<longrightarrow>
            CallOptions.audio (optionsObjects s options) = Some (TRef a)
            \<or> (nextAddr s \<le> a \<and> a < nextAddr s'))
     \<and> (\<forall>a. MediaStreamConstraints.video r = TRef a \<longrightarrow>
            CallOptions.video (optionsObjects s options) = Some (TRef a)
            \<or> (nextAddr s \<le> a \<and> a < nextAddr s')))"
proof (intro conjI impI)
  assume h: "IVertoCanvasInfo.canvasLayouts (rawInfos cs canvasInfo) < canvasNextAddr cs"
  from mutateCanvasInfoData_st_props [OF h, of roundToFixed toString]
  obtain r cs' where p: "mutateCanvasInfoData_st roundToFixed toString cs canvasInfo = Some (r, cs')"
      "rawInfos cs' = rawInfos cs" "rawLayouts cs' = rawLayouts cs"
      "\<forall>a < canvasNextAddr cs.
               arrays cs' a = arrays cs a \<and> outLayouts cs' a = outLayouts cs a
               \<and> outInfos cs' a = outInfos cs a"
      "canvasNextAddr cs \<le> r"
      "canvasNextAddr cs \<le> ICanvasInfo.canvasLayouts (outInfos cs' r)"
      "\<forall>e \<in> set (arrays cs' (ICanvasInfo.canvasLayouts (outInfos cs' r))). canvasNextAddr cs \<le> e"
      "canvas_value cs' r
             = mutateCanvasInfoData roundToFixed toString (raw_canvas_value cs canvasInfo)"
    by blast
  have v: "raw_canvas_value cs' canvasInfo = raw_canvas_value cs canvasInfo"
    using h p(2) p(3) p(4) by (intro raw_canvas_value_frame) simp_all
  show "\<exists>r cs'. mutateCanvasInfoData_st roundToFixed toString cs canvasInfo = Some (r, cs')
         \<and> rawInfos cs' = rawInfos cs \<and> rawLayouts cs' = rawLayouts cs
         \<and> (\<forall>a < canvasNextAddr cs.
               arrays cs' a = arrays cs a \<and> outLayouts cs' a = outLayouts cs a
               \<and> outInfos cs' a = outInfos cs a)
         \<and> raw_canvas_value cs' canvasInfo = raw_canvas_value cs canvasInfo
         \<and> canvasNextAddr cs \<le> r
         \<and> canvasNextAddr cs \<le> ICanvasInfo.canvasLayouts (outInfos cs' r)
         \<and> (\<forall>e \<in> set (arrays cs' (ICanvasInfo.canvasLayouts (outInfos cs' r))). canvasNextAddr cs \<le> e)
         \<and> canvas_value cs' r
             = mutateCanvasInfoData roundToFixed toString (raw_canvas_value cs canvasInfo)"
    by (intro exI [of _ r] exI [of _ cs'] conjI) (fact p v)+
next
  show "\<exists>r s'. getMediaConstraints assureDeviceId s options = (Fulfilled r, s')
     \<and> optionsObjects s' = optionsObjects s
     \<and> (\<forall>a < nextAddr s. others (trackConstraints s' a) = others (trackConstraints s a))
     \<and> (\<forall>a < nextAddr s. trackConstraints s' a \<noteq> trackConstraints s a \<longrightarrow>
           (CallOptions.audio (optionsObjects s options) = Some (TRef a)
              \<and> (\<exists>m j. micId (optionsObjects s options) = Some m \<and> m \<noteq> []
                    \<and> assureDeviceId m
                         (case micLabel (optionsObjects s options) of None \<Rightarrow> [] | Some l \<Rightarrow> l) AudioIn
                        = Fulfilled (Some j) \<and> j \<noteq> []))
         \<or> (CallOptions.video (optionsObjects s options) = Some (TRef a)
              \<and> (\<exists>m j. camId (optionsObjects s options) = Some m \<and> m \<noteq> []
                    \<and> assureDeviceId m
                         (case camLabel (optionsObjects s options) of None \<Rightarrow> [] | Some l \<Rightarrow> l) Video
                        = Fulfilled (Some j) \<and> j \<noteq> [])))
     \<and> (\<forall>a m j. CallOptions.audio (optionsObjects s options) = Some (TRef a)
            \<and> micId (optionsObjects s options) = Some m \<and> m \<noteq> []
            \<and> assureDeviceId m
                 (case micLabel (optionsObjects s options) of None \<Rightarrow> [] | Some l \<Rightarrow> l) AudioIn
                = Fulfilled (Some j) \<and> j \<noteq> []
          \<longrightarrow> (\<exists>k. deviceId (trackConstraints s' a) = Some (Exact k)))
     \<and> (\<forall>a m j. CallOptions.video (optionsObjects s options) = Some (TRef a)
            \<and> camId (optionsObjects s options) = Some m \<and> m \<noteq> []
            \<and> assureDeviceId m
                 (case camLabel (optionsObjects s options) of None \<Rightarrow> [] | Some l \<Rightarrow> l) Video
                = Fulfilled (Some j) \<and> j \<noteq> []
          \<longrightarrow> deviceId (trackConstraints s' a) = Some (Exact j))
     \<and> (\<forall>a. CallOptions.audio (optionsObjects s options) = Some (TRef a) \<longrightarrow>
            MediaStreamConstraints.audio r = TRef a)
     \<and> (\<forall>a. CallOptions.video (optionsObjects s options) = Some (TRef a) \<longrightarrow>
            MediaStreamConstraints.video r = TRef a)
     \<and> (\<forall>a. MediaStreamConstraints.audio r = TRef a \<longrightarrow>
            CallOptions.audio (optionsObjects s options) = Some (TRef a)
            \<or> (nextAddr s \<le> a \<and> a < nextAddr s'))
     \<and> (\<forall>a. MediaStreamConstraints.video r = TRef a \<longrightarrow>
            CallOptions.video (optionsObjects s options) = Some (TRef a)
            \<or> (nextAddr s \<le> a \<and> a < nextAddr s'))"
    by (rule getMediaConstraints_frame)
qed

text \<open>
  An instance for the canvas: one raw layout, in an array at address 1, the next free
  address being 3. The array at address 1 is as before, the result is at a new address
  and its layout starts at \<^verbatim>\<open>25%\<close>.
\<close>

theorem inputs_and_results_witness:
  "\<exists>r cs'. mutateCanvasInfoData_st round2 numberToString
      \<lparr> rawInfos = (\<lambda>a. \<lparr> canvasID = JNumber (Fin 1), layoutFloorID = JNumber (Fin (- 1)),
                           scale = Fin 200, canvasLayouts = 1 \<rparr>),
        rawLayouts = (\<lambda>a. \<lparr> memberID = JNumber (Fin 7), audioPOS = JUndefined, xPOS = JUndefined,
                             yPOS = JUndefined, x = Fin 50, y = Fin 0, scale = Fin 100,
                             hscale = Fin 100, overlap = JNumber (Fin 0) \<rparr>),
        arrays = (\<lambda>a. if a = 1 then [2] else []),
        outLayouts = (\<lambda>a. layout_entry round2 numberToString (Fin 1)
                          \<lparr> memberID = JNumber (Fin 7), audioPOS = JUndefined, xPOS = JUndefined,
                            yPOS = JUndefined, x = Fin 50, y = Fin 0, scale = Fin 100,
                            hscale = Fin 100, overlap = JNumber (Fin 0) \<rparr>),
        outInfos = (\<lambda>a. \<lparr> canvasId = JUndefined, layoutFloorId = JUndefined, scale = Fin 1,
                           canvasLayouts = 0, layoutOverlap = False \<rparr>),
        canvasNextAddr = 3 \<rparr> 0 = Some (r, cs')
     \<and> 3 \<le> r
     \<and> arrays cs' 1 = [2]
     \<and> map startX (ICanvasInfo.canvasLayouts (canvas_value cs' r)) = [''25%'']"
proof -
  let ?L = "\<lparr> memberID = JNumber (Fin 7), audioPOS = JUndefined, xPOS = JUndefined,
                             yPOS = JUndefined, x = Fin 50, y = Fin 0, scale = Fin 100,
                             hscale = Fin 100, overlap = JNumber (Fin 0) \<rparr>"
  let ?cs = "\<lparr> rawInfos = (\<lambda>a. \<lparr> canvasID = JNumber (Fin 1), layoutFloorID = JNumber (Fin (- 1)),
                           scale = Fin 200, canvasLayouts = 1 \<rparr>),
        rawLayouts = (\<lambda>a. ?L),
        arrays = (\<lambda>a. if a = 1 then [2] else []),
        outLayouts = (\<lambda>a. layout_entry round2 numberToString (Fin 1) ?L),
        outInfos = (\<lambda>a. \<lparr> canvasId = JUndefined, layoutFloorId = JUndefined, scale = Fin 1,
                           canvasLayouts = 0, layoutOverlap = False \<rparr>),
        canvasNextAddr = 3 \<rparr>"
  have h: "IVertoCanvasInfo.canvasLayouts (rawInfos ?cs 0) < canvasNextAddr ?cs" by simp
  from inputs_and_results [of ?cs 0 round2 numberToString, THEN conjunct1, rule_format, OF h]
  obtain r cs' where p: "mutateCanvasInfoData_st round2 numberToString ?cs 0 = Some (r, cs')"
      "\<forall>a < canvasNextAddr ?cs.
               arrays cs' a = arrays ?cs a \<and> outLayouts cs' a = outLayouts ?cs a
               \<and> outInfos cs' a = outInfos ?cs a"
      "canvasNextAddr ?cs \<le> r"
      "canvas_value cs' r
             = mutateCanvasInfoData round2 numberToString (raw_canvas_value ?cs 0)"
    by blast
  have a: "arrays cs' 1 = [2]" using p(2) by simp
  have b: "3 \<le> r" using p(3) by simp
  have c: "map startX (ICanvasInfo.canvasLayouts (canvas_value cs' r)) = [''25%'']"
    unfolding p(4)
    by (simp add: raw_canvas_value_def mutateCanvasInfoData_value layout_entry_def
        percentage_finite print_25 [simplified])
  show ?thesis
    by (rule exI [of _ r], rule exI [of _ cs']) (intro conjI p(1) a b c)
qed

end
